theory Spec2Isabelle
  imports Main "HOL-Library.AList"
begin

section \<open>Values, schemas, paths and errors\<close>

text \<open>
  Data values of the validated store.  Numbers are modelled as integers, objects as
  property lists in enumeration order (property names of one object are pairwise
  distinct), arrays as dense lists.  \<open>Fn\<close> is an opaque function value met as data.
\<close>

datatype jsval =
    Undefined
  | Null
  | Bool bool
  | Num int
  | Str string
  | Arr "jsval list"
  | Obj "(string \<times> jsval) list"
  | Fn nat

text \<open>A path segment is a property name or a numeric array index.\<close>

datatype seg = Key string | Idx nat

type_synonym path = "seg list"

text \<open>
  Thrown errors.  \<open>Error m\<close> and \<open>TypeError m\<close> carry the message \<open>m\<close>.
  \<open>TypeErrorGot m v\<close> is the \<open>TypeError\<close> whose message is \<open>m\<close> followed by
  \<open>JSON.stringify(v)\<close>; the serialiser belongs to the platform and is left symbolic.
  \<open>EngineTypeError\<close> is a \<open>TypeError\<close> thrown by the language runtime itself: a property
  read on \<open>null\<close> or \<open>undefined\<close>, a call of a non-function, \<open>reduce\<close> of an empty array
  without initial value, a spread of \<open>undefined\<close>.
\<close>

datatype error =
    Error string
  | TypeError string
  | TypeErrorGot string jsval
  | EngineTypeError

text \<open>
  A predicate of the schema is called as \<open>validator(value, path)\<close>; it returns a value that
  is read for truthiness, or throws.  A call with the value alone leaves the path \<open>None\<close>
  (\<open>undefined\<close>).
\<close>

type_synonym jsfun = "jsval \<Rightarrow> path option \<Rightarrow> error + jsval"

text \<open>
  A schema node is whatever value the schema author wrote: a function, a mapping, an
  array, or a primitive (among them the falsy values the validator refuses).
\<close>

datatype prim = PUndefined | PNull | PBool bool | PNum int | PStr string

datatype schema =
    SFun jsfun
  | SObj "(string \<times> schema) list"
  | SArr "schema list"
  | SPrim prim

fun typeof :: "jsval \<Rightarrow> string" where
  "typeof Undefined = ''undefined''"
| "typeof Null = ''object''"
| "typeof (Bool b) = ''boolean''"
| "typeof (Num n) = ''number''"
| "typeof (Str s) = ''string''"
| "typeof (Arr xs) = ''object''"
| "typeof (Obj kvs) = ''object''"
| "typeof (Fn f) = ''function''"

fun truthy :: "jsval \<Rightarrow> bool" where
  "truthy Undefined = False"
| "truthy Null = False"
| "truthy (Bool b) = b"
| "truthy (Num n) = (n \<noteq> 0)"
| "truthy (Str s) = (s \<noteq> [])"
| "truthy (Arr xs) = True"
| "truthy (Obj kvs) = True"
| "truthy (Fn f) = True"

fun isArray :: "jsval \<Rightarrow> bool" where
  "isArray (Arr xs) = True"
| "isArray _ = False"

fun typeofS :: "schema \<Rightarrow> string" where
  "typeofS (SFun f) = ''function''"
| "typeofS (SObj kvs) = ''object''"
| "typeofS (SArr ss) = ''object''"
| "typeofS (SPrim PUndefined) = ''undefined''"
| "typeofS (SPrim PNull) = ''object''"
| "typeofS (SPrim (PBool b)) = ''boolean''"
| "typeofS (SPrim (PNum n)) = ''number''"
| "typeofS (SPrim (PStr s)) = ''string''"

fun truthyS :: "schema \<Rightarrow> bool" where
  "truthyS (SPrim PUndefined) = False"
| "truthyS (SPrim PNull) = False"
| "truthyS (SPrim (PBool b)) = b"
| "truthyS (SPrim (PNum n)) = (n \<noteq> 0)"
| "truthyS (SPrim (PStr s)) = (s \<noteq> [])"
| "truthyS _ = True"

fun isArrayS :: "schema \<Rightarrow> bool" where
  "isArrayS (SArr ss) = True"
| "isArrayS _ = False"

text \<open>\<open>isObject(value)\<close>: \<open>value && !Array.isArray(value) && typeof value === 'object'\<close>,
  on data values and on schema nodes.\<close>

definition isObject :: "jsval \<Rightarrow> bool" where
  "isObject v = (truthy v \<and> \<not> isArray v \<and> typeof v = ''object'')"

definition isObjectS :: "schema \<Rightarrow> bool" where
  "isObjectS v = (truthyS v \<and> \<not> isArrayS v \<and> typeofS v = ''object'')"

subsection \<open>Rendering of paths\<close>

definition digit :: "nat \<Rightarrow> char" where
  "digit d = ''0123456789'' ! d"

text \<open>The decimal text of an array index, as a template literal renders it.\<close>

fun showNat :: "nat \<Rightarrow> string" where
  "showNat n = (if n < 10 then [digit n] else showNat (n div 10) @ [digit (n mod 10)])"

declare showNat.simps [simp del]

fun segText :: "seg \<Rightarrow> string" where
  "segText (Key k) = k"
| "segText (Idx n) = showNat n"

text \<open>The callback of \<open>stringifyPath\<close>: a number is rendered in brackets, anything else
  after a dot.\<close>

definition pathStep :: "string \<Rightarrow> seg \<Rightarrow> string" where
  "pathStep acc el =
     (case el of Idx n \<Rightarrow> acc @ ''['' @ showNat n @ '']'' | Key k \<Rightarrow> acc @ ''.'' @ k)"

text \<open>\<open>path.reduce(callback)\<close> has no initial value: the first segment seeds the
  accumulator as it is, and an empty path throws.\<close>

fun stringifyPath :: "path option \<Rightarrow> error + string" where
  "stringifyPath None = Inl EngineTypeError"
| "stringifyPath (Some []) = Inl EngineTypeError"
| "stringifyPath (Some (el # els)) = Inr (foldl pathStep (segText el) els)"

text \<open>\<open>[...path, el]\<close>.\<close>

fun spread :: "path option \<Rightarrow> seg \<Rightarrow> error + path" where
  "spread None el = Inl EngineTypeError"
| "spread (Some p) el = Inr (p @ [el])"

subsection \<open>Property reads\<close>

text \<open>
  \<open>value[key]\<close> for a string key: own properties only (members inherited from the built-in
  prototypes, and the \<open>length\<close>, \<open>name\<close> and \<open>prototype\<close> of a function value, are outside
  the model).  Arrays and strings answer their indices and \<open>length\<close>; a read on \<open>null\<close> or
  \<open>undefined\<close> throws.
\<close>

fun getProp :: "jsval \<Rightarrow> string \<Rightarrow> error + jsval" where
  "getProp Undefined key = Inl EngineTypeError"
| "getProp Null key = Inl EngineTypeError"
| "getProp (Obj kvs) key = Inr (case map_of kvs key of Some v \<Rightarrow> v | None \<Rightarrow> Undefined)"
| "getProp (Arr xs) key =
     Inr (case find (\<lambda>i. showNat i = key) [0..<length xs] of
            Some i \<Rightarrow> xs ! i
          | None \<Rightarrow> if key = ''length'' then Num (int (length xs)) else Undefined)"
| "getProp (Str s) key =
     Inr (case find (\<lambda>i. showNat i = key) [0..<length s] of
            Some i \<Rightarrow> Str [s ! i]
          | None \<Rightarrow> if key = ''length'' then Num (int (length s)) else Undefined)"
| "getProp _ key = Inr Undefined"

section \<open>The structural validator\<close>

text \<open>\<open>xs.forEach(f)\<close> where \<open>f\<close> may throw: the first throw ends the iteration.\<close>

fun forEach :: "('a \<Rightarrow> error + unit) \<Rightarrow> 'a list \<Rightarrow> error + unit" where
  "forEach f [] = Inr ()"
| "forEach f (x # xs) = (case f x of Inl e \<Rightarrow> Inl e | Inr _ \<Rightarrow> forEach f xs)"

lemma forEach_cong [fundef_cong]:
  "xs = ys \<Longrightarrow> (\<And>x. x \<in> set ys \<Longrightarrow> f x = g x) \<Longrightarrow> forEach f xs = forEach g ys"
  by (induction ys arbitrary: xs) (auto split: sum.splits)

text \<open>The message templates of the validator, around the rendered path.\<close>

definition invalidSchemaMsg :: "string \<Rightarrow> string" where
  "invalidSchemaMsg s = ''invalid schema property for path: '' @ s"

definition undefinedDataMsg :: "string \<Rightarrow> string" where
  "undefinedDataMsg s = ''undefined data property at path: '' @ s"

definition expectedArrayMsg :: "string \<Rightarrow> string" where
  "expectedArrayMsg s = ''expected array for data property at path '' @ s @ '', Got: ''"

definition expectedObjectMsg :: "string \<Rightarrow> string" where
  "expectedObjectMsg s = ''expected object for data property at path '' @ s @ '', Got: ''"

definition checkFailedMsg :: "string \<Rightarrow> string" where
  "checkFailedMsg s = ''check failed for data property at path '' @ s @ ''. Got: ''"

text \<open>\<open>throw new E(`... ${stringifyPath(path)} ...`)\<close>: the path is rendered first, and
  a failure to render it is what is thrown.\<close>

definition throwAt :: "(string \<Rightarrow> error) \<Rightarrow> error + string \<Rightarrow> error + 'a" where
  "throwAt mk s = (case s of Inl e \<Rightarrow> Inl e | Inr text \<Rightarrow> Inl (mk text))"

definition typeCheck :: "jsval \<Rightarrow> schema \<Rightarrow> path option \<Rightarrow> error + unit" where
  "typeCheck v validator path =
     (case validator of
        SFun f \<Rightarrow>
          (case f v path of
             Inl e \<Rightarrow> Inl e
           | Inr r \<Rightarrow>
               if \<not> truthy r then
                 throwAt (\<lambda>s. TypeErrorGot (checkFailedMsg s) v) (stringifyPath path)
               else Inr ())
      | _ \<Rightarrow> Inl EngineTypeError)"

fun deepTypeCheck :: "jsval \<Rightarrow> schema \<Rightarrow> path option \<Rightarrow> error + unit" where
  "deepTypeCheck dataStore schema path =
     (if \<not> truthyS schema then
        throwAt (\<lambda>s. Error (invalidSchemaMsg s)) (stringifyPath path)
      else if dataStore = Undefined then
        throwAt (\<lambda>s. TypeError (undefinedDataMsg s)) (stringifyPath path)
      else
        (case schema of
           SArr ss \<Rightarrow>
             (case dataStore of
                Arr xs \<Rightarrow>
                  (case ss of
                     [] \<Rightarrow> Inr ()
                   | s0 # _ \<Rightarrow>
                       if truthyS s0 \<and> typeofS s0 = ''object'' then
                         forEach (\<lambda>(idx, v).
                             case spread path (Idx idx) of
                               Inl e \<Rightarrow> Inl e
                             | Inr p \<Rightarrow> deepTypeCheck v s0 (Some p))
                           (enumerate 0 xs)
                       else if truthyS s0 \<and> typeofS s0 = ''function'' then
                         forEach (\<lambda>(idx, v).
                             case spread path (Idx idx) of
                               Inl e \<Rightarrow> Inl e
                             | Inr p \<Rightarrow> typeCheck v s0 (Some p))
                           (enumerate 0 xs)
                       else Inr ())
              | _ \<Rightarrow>
                  throwAt (\<lambda>s. TypeErrorGot (expectedArrayMsg s) dataStore)
                    (stringifyPath path))
         | SObj kvs \<Rightarrow>
             forEach (\<lambda>(key, sub).
                 case getProp dataStore key of
                   Inl e \<Rightarrow> Inl e
                 | Inr v \<Rightarrow>
                     if isObjectS sub \<and> \<not> isObject v then
                       (case spread path (Key key) of
                          Inl e \<Rightarrow> Inl e
                        | Inr p \<Rightarrow>
                            throwAt (\<lambda>s. TypeErrorGot (expectedObjectMsg s) v)
                              (stringifyPath (Some p)))
                     else
                       (case spread path (Key key) of
                          Inl e \<Rightarrow> Inl e
                        | Inr p \<Rightarrow> deepTypeCheck v sub (Some p)))
               kvs
         | _ \<Rightarrow> typeCheck dataStore schema path))"

declare deepTypeCheck.simps [simp del]

text \<open>The three \<open>forEach\<close> callbacks of \<open>deepTypeCheck\<close> under names of their own: the
  check of one schema key, of one element against an object-shaped element schema, and of
  one element against an element predicate.\<close>

definition checkKey :: "jsval \<Rightarrow> path option \<Rightarrow> string \<times> schema \<Rightarrow> error + unit" where
  "checkKey dataStore path = (\<lambda>(key, sub).
     case getProp dataStore key of
       Inl e \<Rightarrow> Inl e
     | Inr v \<Rightarrow>
         if isObjectS sub \<and> \<not> isObject v then
           (case spread path (Key key) of
              Inl e \<Rightarrow> Inl e
            | Inr p \<Rightarrow> throwAt (\<lambda>s. TypeErrorGot (expectedObjectMsg s) v) (stringifyPath (Some p)))
         else
           (case spread path (Key key) of
              Inl e \<Rightarrow> Inl e
            | Inr p \<Rightarrow> deepTypeCheck v sub (Some p)))"

definition checkElement :: "schema \<Rightarrow> path option \<Rightarrow> nat \<times> jsval \<Rightarrow> error + unit" where
  "checkElement s0 path = (\<lambda>(idx, v).
     case spread path (Idx idx) of Inl e \<Rightarrow> Inl e | Inr p \<Rightarrow> deepTypeCheck v s0 (Some p))"

definition typeCheckElement :: "schema \<Rightarrow> path option \<Rightarrow> nat \<times> jsval \<Rightarrow> error + unit" where
  "typeCheckElement s0 path = (\<lambda>(idx, v).
     case spread path (Idx idx) of Inl e \<Rightarrow> Inl e | Inr p \<Rightarrow> typeCheck v s0 (Some p))"

section \<open>The type predicate library\<close>

definition types_boolean :: jsfun where
  "types_boolean = (\<lambda>v path. Inr (Bool (typeof v = ''boolean'')))"

definition types_number :: jsfun where
  "types_number = (\<lambda>v path. Inr (Bool (typeof v = ''number'')))"

definition types_string :: jsfun where
  "types_string = (\<lambda>v path. Inr (Bool (typeof v = ''string'')))"

text \<open>\<open>anotherType(v)\<close>: a call with the value alone.\<close>

fun callS :: "schema \<Rightarrow> jsval \<Rightarrow> error + jsval" where
  "callS (SFun f) v = f v None"
| "callS _ v = Inl EngineTypeError"

definition types_maybeNull :: "schema \<Rightarrow> error + jsfun" where
  "types_maybeNull anotherType =
     (if \<not> truthyS anotherType then
        Inl (TypeError ''You must pass an object or type function to maybeNull()'')
      else if typeofS anotherType = ''object'' then
        Inr (\<lambda>v path.
          if v = Null then Inr (Bool True)
          else (case deepTypeCheck v anotherType path of
                  Inl e \<Rightarrow> Inl e
                | Inr _ \<Rightarrow> Inr (Bool True)))
      else
        Inr (\<lambda>v path. if v = Null then Inr (Bool True) else callS anotherType v))"

text \<open>\<open>v => v._isVue && v.$options.name === name\<close>: a falsy marker is the result; otherwise
  the name registered in the instance's options is compared.\<close>

definition types_model :: "string \<Rightarrow> jsfun" where
  "types_model name = (\<lambda>v path.
     case getProp v ''_isVue'' of
       Inl e \<Rightarrow> Inl e
     | Inr marker \<Rightarrow>
         if \<not> truthy marker then Inr marker
         else (case getProp v ''$options'' of
                 Inl e \<Rightarrow> Inl e
               | Inr options \<Rightarrow>
                   (case getProp options ''name'' of
                      Inl e \<Rightarrow> Inl e
                    | Inr n \<Rightarrow> Inr (Bool (n = Str name)))))"

section \<open>The watch-path deriver\<close>

text \<open>\<open>xs.reduce(f, init)\<close> where \<open>f\<close> may throw.\<close>

fun reduce :: "('b \<Rightarrow> 'a \<Rightarrow> error + 'b) \<Rightarrow> 'a list \<Rightarrow> 'b \<Rightarrow> error + 'b" where
  "reduce f [] acc = Inr acc"
| "reduce f (x # xs) acc = (case f acc x of Inl e \<Rightarrow> Inl e | Inr acc' \<Rightarrow> reduce f xs acc')"

lemma reduce_cong [fundef_cong]:
  "xs = ys \<Longrightarrow> a = b \<Longrightarrow> (\<And>acc x. x \<in> set ys \<Longrightarrow> f acc x = g acc x)
   \<Longrightarrow> reduce f xs a = reduce g ys b"
  by (induction ys arbitrary: xs a b) (auto split: sum.splits)

text \<open>\<open>xs.join(sep)\<close> on an array of strings.\<close>

fun join :: "string \<Rightarrow> string list \<Rightarrow> string" where
  "join sep [] = []"
| "join sep [x] = x"
| "join sep (x # y # ys) = x @ sep @ join sep (y # ys)"

text \<open>
  The reducer returned by \<open>getReducerForPath(path)\<close>.  A value with
  \<open>typeof val === 'object'\<close> that is not an array is a mapping or \<open>null\<close>; on \<open>null\<close>,
  \<open>Object.entries\<close> throws.
\<close>

fun getReducerForPath :: "string list \<Rightarrow> string list \<Rightarrow> string \<times> schema \<Rightarrow> error + string list" where
  "getReducerForPath path acc (key, val) =
     (if typeofS val = ''object'' \<and> \<not> isArrayS val then
        (case val of
           SObj entries \<Rightarrow> reduce (getReducerForPath (path @ [key])) entries acc
         | _ \<Rightarrow> Inl EngineTypeError)
      else Inr (acc @ [join ''.'' (path @ [key])]))"

text \<open>\<open>Object.entries(schema)\<close> of the root, whatever value it is: a mapping gives its
  entries, an array and a string their indexed elements, \<open>null\<close> and \<open>undefined\<close> throw,
  any other value has no entries.\<close>

fun objectEntries :: "schema \<Rightarrow> error + (string \<times> schema) list" where
  "objectEntries (SObj kvs) = Inr kvs"
| "objectEntries (SArr ss) = Inr (map (\<lambda>(i, s). (showNat i, s)) (enumerate 0 ss))"
| "objectEntries (SFun f) = Inr []"
| "objectEntries (SPrim PUndefined) = Inl EngineTypeError"
| "objectEntries (SPrim PNull) = Inl EngineTypeError"
| "objectEntries (SPrim (PStr s)) =
     Inr (map (\<lambda>(i, c). (showNat i, SPrim (PStr [c]))) (enumerate 0 s))"
| "objectEntries (SPrim _) = Inr []"

definition getWatchProperties :: "schema \<Rightarrow> error + string list" where
  "getWatchProperties schema =
     (case objectEntries schema of
        Inl e \<Rightarrow> Inl e
      | Inr entries \<Rightarrow> reduce (getReducerForPath []) entries [])"

section \<open>The mutation guard and the model factory\<close>

subsection \<open>Mutable objects\<close>

text \<open>
  The options the caller hands to \<open>model\<close> are shared, mutable objects, so they live in a
  store of cells.  A cell holds the properties of one object in enumeration order.  A
  property value is a primitive, a reference to a cell or a function.  A function is one of
  the caller's own (\<open>User n\<close>), or one of the two closures that \<open>model\<close> creates around a
  captured value: \<open>SetterWrapper setter\<close> and \<open>MethodWrapper value\<close>.
\<close>

type_synonym addr = nat

datatype hval =
    HUndefined
  | HNull
  | HBool bool
  | HNum int
  | HStr string
  | HRef addr
  | HFun func
and func =
    User nat
  | SetterWrapper hval
  | MethodWrapper hval

type_synonym object = "(string \<times> hval) list"

type_synonym heap = "addr \<Rightarrow> object"

fun typeofH :: "hval \<Rightarrow> string" where
  "typeofH HUndefined = ''undefined''"
| "typeofH HNull = ''object''"
| "typeofH (HBool b) = ''boolean''"
| "typeofH (HNum n) = ''number''"
| "typeofH (HStr s) = ''string''"
| "typeofH (HRef a) = ''object''"
| "typeofH (HFun f) = ''function''"

fun truthyH :: "hval \<Rightarrow> bool" where
  "truthyH HUndefined = False"
| "truthyH HNull = False"
| "truthyH (HBool b) = b"
| "truthyH (HNum n) = (n \<noteq> 0)"
| "truthyH (HStr s) = (s \<noteq> [])"
| "truthyH (HRef a) = True"
| "truthyH (HFun f) = True"

text \<open>\<open>obj[key]\<close> on a cell: \<open>undefined\<close> when the property is absent.\<close>

definition propH :: "object \<Rightarrow> string \<Rightarrow> hval" where
  "propH obj key = (case map_of obj key of Some v \<Rightarrow> v | None \<Rightarrow> HUndefined)"

subsection \<open>Calls on the constructed instance\<close>

text \<open>
  The receiver \<open>this\<close> of a method, setter or watch callback is the constructed instance:
  its counter \<open>_mutex\<close> and its reactive data.  A function of the caller is any
  transformer of the receiver that returns a value or throws; \<open>env\<close> maps the caller's
  functions to their behaviour.
\<close>

record vueState =
  mutex :: int
  store :: jsval

type_synonym jsmethod = "vueState \<Rightarrow> jsval list \<Rightarrow> (error + jsval) \<times> vueState"

text \<open>
  \<open>invoke env f this args\<close> is \<open>f.apply(this, args)\<close> for a function \<open>f\<close>; \<open>applyH\<close> is
  \<open>value.apply(this, args)\<close> for any value, which throws unless the value is a function.
  Both wrappers run \<open>this._mutex += 1\<close> and then \<open>return captured.apply(this, args)\<close>.
\<close>

fun invoke :: "(nat \<Rightarrow> jsmethod) \<Rightarrow> func \<Rightarrow> jsmethod"
and applyH :: "(nat \<Rightarrow> jsmethod) \<Rightarrow> hval \<Rightarrow> jsmethod" where
  "invoke env (User n) this args = env n this args"
| "invoke env (SetterWrapper setter) this args =
     applyH env setter (this\<lparr>mutex := mutex this + 1\<rparr>) args"
| "invoke env (MethodWrapper val) this args =
     applyH env val (this\<lparr>mutex := mutex this + 1\<rparr>) args"
| "applyH env (HFun f) this args = invoke env f this args"
| "applyH env _ this args = (Inl EngineTypeError, this)"

text \<open>
  \<open>f.length\<close>, the number of parameters a function declares before a rest parameter.
  \<open>declared\<close> gives it for the caller's functions; both wrappers are written
  \<open>function(...args)\<close>, with a rest parameter alone.
\<close>

fun funLength :: "(nat \<Rightarrow> nat) \<Rightarrow> func \<Rightarrow> nat" where
  "funLength declared (User n) = declared n"
| "funLength declared (SetterWrapper setter) = 0"
| "funLength declared (MethodWrapper val) = 0"

definition watchCallback :: "string \<Rightarrow> vueState \<Rightarrow> (error + jsval) \<times> vueState" where
  "watchCallback vmName this =
     (if mutex this = 0 then
        (Inl (Error (vmName
           @ '' store is immutable! Updates must happen within a method or computed setter.'')),
         this)
      else if mutex this < 0 then
        (Inl (Error (''Somehow the mutex is off in '' @ vmName @ ''. This should never happen.'')),
         this)
      else (Inr Undefined, this\<lparr>mutex := mutex this - 1\<rparr>))"

subsection \<open>The factory\<close>

text \<open>
  \<open>storeOptions\<close> as the caller passes it: the data and the schema are plain values, the
  \<open>computed\<close>, \<open>watch\<close> and \<open>methods\<close> mappings are references to the caller's objects, or
  absent.  In \<open>vmOptions\<close> an absent mapping stands for the fresh \<open>{}\<close> that \<open>model\<close> puts
  in its place: it has no entries and nobody else holds it.
\<close>

record storeOptions =
  so_name :: "string option"
  so_data :: jsval
  so_computed :: "addr option"
  so_watch :: "addr option"
  so_methods :: "addr option"
  so_schema :: "schema option"

record vmOptions =
  vm_name :: string
  vm_data :: jsval
  vm_computed :: "addr option"
  vm_watch :: "addr option"
  vm_methods :: "addr option"

text \<open>
  What \<open>model\<close> returns: the instance that the reactive runtime built from \<open>vm\<close>, with the
  counter \<open>_mutex\<close> when the guard set it, and the path expressions on which
  \<open>watchCallback\<close> and the re-validation callback were registered.
\<close>

record component =
  options :: vmOptions
  c_mutex :: "int option"
  guardWatches :: "string list"
  typeWatches :: "string list"

text \<open>\<open>forEach\<close> with a callback that writes to the store of cells.\<close>

fun forEachH ::
  "('a \<Rightarrow> heap \<Rightarrow> (error + unit) \<times> heap) \<Rightarrow> 'a list \<Rightarrow> heap \<Rightarrow> (error + unit) \<times> heap" where
  "forEachH f [] h = (Inr (), h)"
| "forEachH f (x # xs) h =
     (case f x h of (Inl e, h') \<Rightarrow> (Inl e, h') | (Inr _, h') \<Rightarrow> forEachH f xs h')"

text \<open>\<open>Object.entries(mapping)\<close>, read when the loop starts.\<close>

definition entriesH :: "heap \<Rightarrow> addr option \<Rightarrow> object" where
  "entriesH h ref = (case ref of None \<Rightarrow> [] | Some a \<Rightarrow> h a)"

text \<open>The callback over the entries of \<open>vm.computed\<close>: on \<open>typeof value === 'object' &&
  value.set\<close> the entry's own \<open>set\<close> property is assigned the wrapper around the old one.
  The read of \<open>null.set\<close> throws.\<close>

definition wrapSetter :: "string \<times> hval \<Rightarrow> heap \<Rightarrow> (error + unit) \<times> heap" where
  "wrapSetter = (\<lambda>(key, val) h.
     if typeofH val = ''object'' then
       (case val of
          HRef a \<Rightarrow>
            (let setter = propH (h a) ''set'' in
             if truthyH setter then
               (Inr (), h(a := AList.update ''set'' (HFun (SetterWrapper setter)) (h a)))
             else (Inr (), h))
        | _ \<Rightarrow> (Inl EngineTypeError, h))
     else (Inr (), h))"

text \<open>The callback over the entries of \<open>vm.methods\<close>: \<open>vm.methods[key]\<close> is assigned the
  wrapper around the entry's value.\<close>

definition wrapMethod :: "addr option \<Rightarrow> string \<times> hval \<Rightarrow> heap \<Rightarrow> (error + unit) \<times> heap" where
  "wrapMethod methods = (\<lambda>(key, val) h.
     case methods of
       Some a \<Rightarrow> (Inr (), h(a := AList.update key (HFun (MethodWrapper val)) (h a)))
     | None \<Rightarrow> (Inr (), h))"

text \<open>The two wrapping loops of the immutability mechanism, in the order of the source.\<close>

definition installGuard :: "heap \<Rightarrow> vmOptions \<Rightarrow> (error + unit) \<times> heap" where
  "installGuard h vm =
     (case forEachH wrapSetter (entriesH h (vm_computed vm)) h of
        (Inl e, h1) \<Rightarrow> (Inl e, h1)
      | (Inr _, h1) \<Rightarrow> forEachH (wrapMethod (vm_methods vm)) (entriesH h1 (vm_methods vm)) h1)"

text \<open>\<open>process.env.NODE_ENV !== 'production' && storeOptions.schema\<close>: the schema when
  the condition holds.\<close>

definition activeSchema :: "storeOptions \<Rightarrow> bool \<Rightarrow> schema option" where
  "activeSchema storeOptions production =
     (case so_schema storeOptions of
        None \<Rightarrow> None
      | Some s \<Rightarrow> if \<not> production \<and> truthyS s then Some s else None)"

text \<open>The sanitized input \<open>vm\<close>: the name defaults to \<open>ANONYMOUS_MODEL\<close> when it is
  absent or empty, and the mappings are the caller's own objects when they are given.\<close>

definition sanitize :: "storeOptions \<Rightarrow> vmOptions" where
  "sanitize storeOptions =
     \<lparr> vm_name = (case so_name storeOptions of
                     None \<Rightarrow> ''ANONYMOUS_MODEL''
                   | Some n \<Rightarrow> if n = [] then ''ANONYMOUS_MODEL'' else n),
       vm_data = so_data storeOptions,
       vm_computed = so_computed storeOptions,
       vm_watch = so_watch storeOptions,
       vm_methods = so_methods storeOptions \<rparr>"

text \<open>
  \<open>model(storeOptions, modelOptions)\<close>, with \<open>modelOptions.immutable\<close> and the production
  flag as arguments.  The result is the returned instance or the thrown error, and the
  store of cells as the call leaves it.
\<close>

definition model :: "heap \<Rightarrow> storeOptions \<Rightarrow> jsval \<Rightarrow> bool \<Rightarrow> (error + component) \<times> heap" where
  "model h storeOptions immutable production =
     (if \<not> truthy (so_data storeOptions) then (Inl (Error ''Undefined model data.''), h)
      else case getProp (so_data storeOptions) ''_isVue'' of
        Inl e \<Rightarrow> (Inl e, h)
      | Inr marker \<Rightarrow>
        if truthy marker then (Inl (Error ''Attempting to create a model from a model''), h)
        else
          let vm = sanitize storeOptions in
          case (case activeSchema storeOptions production of
                  None \<Rightarrow> Inr []
                | Some s \<Rightarrow> getWatchProperties s) of
            Inl e \<Rightarrow> (Inl e, h)
          | Inr watchProps \<Rightarrow>
            (case (if immutable \<noteq> Bool False \<and> \<not> production then
                     (case installGuard h vm of
                        (Inl e, h') \<Rightarrow> (Inl e, h')
                      | (Inr _, h') \<Rightarrow>
                          (Inr \<lparr> options = vm, c_mutex = Some 0,
                                 guardWatches = watchProps, typeWatches = [] \<rparr>, h'))
                   else
                     (Inr \<lparr> options = vm, c_mutex = None,
                            guardWatches = [], typeWatches = [] \<rparr>, h)) of
               (Inl e, h') \<Rightarrow> (Inl e, h')
             | (Inr component, h') \<Rightarrow>
                 (case activeSchema storeOptions production of
                    None \<Rightarrow> (Inr component, h')
                  | Some s \<Rightarrow>
                      (case deepTypeCheck (vm_data vm) s (Some [Key (''<'' @ vm_name vm @ ''>'')]) of
                         Inl e \<Rightarrow> (Inl e, h')
                       | Inr _ \<Rightarrow> (Inr (component\<lparr>typeWatches := watchProps\<rparr>), h')))))"

section \<open>Notions of the specification\<close>

subsection \<open>Structural matching\<close>

text \<open>A value satisfies a leaf predicate when the predicate, called with the value and its
  path, returns a truthy result.\<close>

definition satisfies :: "jsfun \<Rightarrow> jsval \<Rightarrow> path \<Rightarrow> bool" where
  "satisfies f v p = (case f v (Some p) of Inl e \<Rightarrow> False | Inr r \<Rightarrow> truthy r)"

text \<open>The data value under a key: \<open>undefined\<close> when there is none.\<close>

definition valueAt :: "jsval \<Rightarrow> string \<Rightarrow> jsval" where
  "valueAt d key = (case getProp d key of Inl e \<Rightarrow> Undefined | Inr v \<Rightarrow> v)"

text \<open>
  A data value structurally matches a schema: every leaf value satisfies its leaf
  predicate, every object-shaped schema node meets an object value, every array schema
  node meets an array value whose elements match the element sub-schema.  Only the keys
  of the schema are looked at.  A primitive is not a schema node, so nothing matches it.
\<close>

fun structurallyMatches :: "jsval \<Rightarrow> schema \<Rightarrow> path \<Rightarrow> bool" where
  "structurallyMatches d (SFun f) p = satisfies f d p"
| "structurallyMatches d (SObj kvs) p =
     (isObject d \<and>
      list_all (\<lambda>(key, sub). structurallyMatches (valueAt d key) sub (p @ [Key key])) kvs)"
| "structurallyMatches d (SArr ss) p =
     (case d of
        Arr xs \<Rightarrow>
          (case ss of
             [] \<Rightarrow> True
           | s0 # _ \<Rightarrow>
               list_all (\<lambda>(idx, v). structurallyMatches v s0 (p @ [Idx idx])) (enumerate 0 xs))
      | _ \<Rightarrow> False)"
| "structurallyMatches d (SPrim v) p = False"

text \<open>No value that meets a predicate leaf at the root or under an object key is
  \<open>undefined\<close>.  (The elements of an array with an element predicate go to the predicate as
  they are.)\<close>

fun leavesDefined :: "jsval \<Rightarrow> schema \<Rightarrow> bool" where
  "leavesDefined d (SFun f) = (d \<noteq> Undefined)"
| "leavesDefined d (SObj kvs) = list_all (\<lambda>(key, sub). leavesDefined (valueAt d key) sub) kvs"
| "leavesDefined d (SArr ss) =
     (case d of
        Arr xs \<Rightarrow>
          (case ss of
             [] \<Rightarrow> True
           | s0 # _ \<Rightarrow> (case s0 of SFun f \<Rightarrow> True | _ \<Rightarrow> list_all (\<lambda>v. leavesDefined v s0) xs))
      | _ \<Rightarrow> True)"
| "leavesDefined d (SPrim v) = True"

subsection \<open>Watch paths\<close>

text \<open>
  The flattening as the specification words it: depth first in key order, a plain
  object-shaped value is recursed into with the path extended by its key and contributes
  no path of its own, every other value contributes exactly the dot-joined path to it.
\<close>

function watchPaths :: "string list \<Rightarrow> (string \<times> schema) list \<Rightarrow> string list" where
  "watchPaths prefix [] = []"
| "watchPaths prefix ((key, val) # rest) =
     (case val of
        SObj sub \<Rightarrow> watchPaths (prefix @ [key]) sub
      | _ \<Rightarrow> [join ''.'' (prefix @ [key])])
     @ watchPaths prefix rest"
  by pat_completeness auto
termination
  by (relation "measure (\<lambda>(prefix, entries). size_list (size_prod (\<lambda>_. 0) size) entries)") auto

text \<open>No value reached through nested mappings is \<open>null\<close>: the nodes are functions,
  mappings, arrays or other primitives.\<close>

fun noNullNode :: "schema \<Rightarrow> bool" where
  "noNullNode (SObj kvs) = list_all (\<lambda>(key, val). noNullNode val) kvs"
| "noNullNode (SPrim PNull) = False"
| "noNullNode _ = True"

subsection \<open>Histories of the counter\<close>

text \<open>
  What happens to one instance over time: calls of guarded entry points and change
  notifications of the reactive runtime, in any order.  A notification runs
  \<open>watchCallback\<close>; when that throws, the runtime's error handler takes the error and the
  instance stays as it is.
\<close>

datatype event = GuardedCall func "jsval list" | ChangeNotification

fun step :: "(nat \<Rightarrow> jsmethod) \<Rightarrow> string \<Rightarrow> vueState \<Rightarrow> event \<Rightarrow> vueState" where
  "step env vmName this (GuardedCall f args) = snd (invoke env f this args)"
| "step env vmName this ChangeNotification = snd (watchCallback vmName this)"

definition run :: "(nat \<Rightarrow> jsmethod) \<Rightarrow> string \<Rightarrow> vueState \<Rightarrow> event list \<Rightarrow> vueState" where
  "run env vmName = foldl (step env vmName)"

text \<open>The number of notifications of a history that raise.\<close>

fun raised :: "(nat \<Rightarrow> jsmethod) \<Rightarrow> string \<Rightarrow> vueState \<Rightarrow> event list \<Rightarrow> nat" where
  "raised env vmName this [] = 0"
| "raised env vmName this (ev # evs) =
     (case ev of
        ChangeNotification \<Rightarrow> (if isl (fst (watchCallback vmName this)) then 1 else 0)
      | GuardedCall f args \<Rightarrow> 0)
     + raised env vmName (step env vmName this ev) evs"

text \<open>A function of the caller that leaves the counter alone, and an event whose call goes
  through a wrapper around such a function.\<close>

definition preservesMutex :: "jsmethod \<Rightarrow> bool" where
  "preservesMutex m = (\<forall>this args. mutex (snd (m this args)) = mutex this)"

fun guardedEvent :: "(nat \<Rightarrow> jsmethod) \<Rightarrow> event \<Rightarrow> bool" where
  "guardedEvent env (GuardedCall (MethodWrapper (HFun (User n))) args) = preservesMutex (env n)"
| "guardedEvent env (GuardedCall (SetterWrapper (HFun (User n))) args) = preservesMutex (env n)"
| "guardedEvent env (GuardedCall _ args) = False"
| "guardedEvent env ChangeNotification = True"

fun isCall :: "event \<Rightarrow> bool" where
  "isCall (GuardedCall f args) = True"
| "isCall ChangeNotification = False"

definition calls :: "event list \<Rightarrow> nat" where
  "calls evs = length (filter isCall evs)"

definition notifications :: "event list \<Rightarrow> nat" where
  "notifications evs = length (filter (\<lambda>ev. \<not> isCall ev) evs)"

subsection \<open>The effect of the guard on the caller's objects\<close>

text \<open>The cells that the entries of a mapping refer to, in enumeration order.\<close>

fun entryRefs :: "object \<Rightarrow> addr list" where
  "entryRefs [] = []"
| "entryRefs ((key, HRef a) # rest) = a # entryRefs rest"
| "entryRefs (_ # rest) = entryRefs rest"

text \<open>An entry object with its \<open>set\<close> member wrapped, when it has a truthy one; and a
  mapping with every value wrapped.\<close>

definition wrapSet :: "object \<Rightarrow> object" where
  "wrapSet obj =
     (if truthyH (propH obj ''set'')
      then AList.update ''set'' (HFun (SetterWrapper (propH obj ''set''))) obj
      else obj)"

definition wrapAll :: "object \<Rightarrow> object" where
  "wrapAll obj = map (\<lambda>(key, val). (key, HFun (MethodWrapper val))) obj"

text \<open>
  The caller's option objects do not alias one another: the entry objects of \<open>computed\<close>
  are pairwise distinct cells, none of them is the \<open>computed\<close> or the \<open>methods\<close> mapping
  itself, the two mappings are distinct cells, and the property names of \<open>methods\<close> are
  pairwise distinct.
\<close>

definition separated :: "heap \<Rightarrow> storeOptions \<Rightarrow> bool" where
  "separated h storeOptions =
     (let refs = entryRefs (entriesH h (so_computed storeOptions)) in
      distinct refs
      \<and> (case so_computed storeOptions of None \<Rightarrow> True | Some ac \<Rightarrow> ac \<notin> set refs)
      \<and> (case so_methods storeOptions of
            None \<Rightarrow> True
          | Some am \<Rightarrow>
              am \<notin> set refs \<and> so_computed storeOptions \<noteq> Some am \<and> distinct (map fst (h am))))"

text \<open>The cells after both wrapping loops, in closed form.\<close>

definition guardedHeap :: "heap \<Rightarrow> storeOptions \<Rightarrow> heap" where
  "guardedHeap h storeOptions =
     (let refs = entryRefs (entriesH h (so_computed storeOptions));
          h1 = (\<lambda>x. if x \<in> set refs then wrapSet (h x) else h x)
      in case so_methods storeOptions of
           None \<Rightarrow> h1
         | Some am \<Rightarrow> h1(am := wrapAll (h1 am)))"

subsection \<open>Example inputs\<close>

text \<open>An instance of the reactive runtime as \<open>types.model\<close> sees it: the runtime marks
  its instances with \<open>_isVue\<close> and keeps the registered name in \<open>$options.name\<close>.\<close>

definition vueInstance :: "string \<Rightarrow> jsval" where
  "vueInstance name = Obj [(''_isVue'', Bool True), (''$options'', Obj [(''name'', Str name)])]"

text \<open>A validator written by the caller for an optional string field.\<close>

definition optionalString :: jsfun where
  "optionalString = (\<lambda>v path. Inr (Bool (v = Undefined \<or> typeof v = ''string'')))"

definition userSchema :: schema where
  "userSchema = SObj [(''id'', SFun types_number), (''nick'', SFun optionalString)]"

definition userData :: jsval where
  "userData = Obj [(''id'', Num 1)]"

definition bookSchema :: schema where
  "bookSchema = SObj [(''id'', SFun types_string), (''digitalDownload'', SFun types_boolean),
     (''created'', SObj [(''at'', SFun types_string)]),
     (''publishers'', SArr [SObj [(''id'', SFun types_string), (''name'', SFun types_string)]]),
     (''ratings'', SArr [SFun types_number])]"

definition bookData :: jsval where
  "bookData = Obj [(''id'', Str ''37848de6''), (''digitalDownload'', Bool True),
     (''created'', Obj [(''at'', Str ''2020''), (''by'', Null)]),
     (''publishers'', Arr [Obj [(''id'', Str ''b0ad''), (''name'', Str ''First Second Books'')]]),
     (''ratings'', Arr [Num 4, Num 5])]"

definition profileSchema :: schema where
  "profileSchema =
     SObj [(''id'', SFun types_number), (''address'', SObj [(''city'', SFun types_string)])]"

definition publishersSchema :: schema where
  "publishersSchema =
     SObj [(''publishers'', SArr [SObj [(''id'', SFun types_string), (''name'', SFun types_string)]])]"

definition watchSchema :: schema where
  "watchSchema = SObj [(''a'', SObj [(''b'', SFun types_string)]),
     (''c'', SArr [SObj [(''d'', SFun types_string)]]), (''e'', SFun types_string)]"

text \<open>A method of the caller that assigns an observed field, and a history of two
  overlapping calls of its wrapper followed by their two notifications.\<close>

definition setFirstName :: "nat \<Rightarrow> jsmethod" where
  "setFirstName n this args =
     (Inr Undefined, this\<lparr>store := Obj [(''firstName'', case args of [] \<Rightarrow> Undefined | a # _ \<Rightarrow> a)]\<rparr>)"

definition overlapping :: "event list" where
  "overlapping =
     [GuardedCall (MethodWrapper (HFun (User 0))) [Str ''Joe''],
      GuardedCall (MethodWrapper (HFun (User 0))) [Str ''Ann''],
      ChangeNotification, ChangeNotification]"

text \<open>The options of the README's \<open>programmer\<close> model: cell 1 is \<open>computed\<close> with a
  \<open>{get, set}\<close> entry (cell 2), a plain getter and a \<open>{get}\<close> entry (cell 4); cell 3 is
  \<open>methods\<close>.\<close>

definition programmerHeap :: heap where
  "programmerHeap = (\<lambda>a. [])
     (1 := [(''fullName'', HRef 2), (''initials'', HFun (User 3)), (''language'', HRef 4)],
      2 := [(''get'', HFun (User 0)), (''set'', HFun (User 1))],
      3 := [(''setFirstName'', HFun (User 2))],
      4 := [(''get'', HFun (User 4))])"

definition programmerOptions :: storeOptions where
  "programmerOptions =
     \<lparr> so_name = Some ''programmer'',
       so_data = Obj [(''firstName'', Str ''Brian''), (''lastName'', Str ''Kernighan'')],
       so_computed = Some 1,
       so_watch = None,
       so_methods = Some 3,
       so_schema = Some (SObj [(''firstName'', SFun types_string), (''lastName'', SFun types_string)]) \<rparr>"

text \<open>The same options with one \<open>{get, set}\<close> object (cell 2) under two keys of
  \<open>computed\<close>; and functions of the caller that declare one parameter each, as
  \<open>setFirstName(value)\<close> and \<open>set(value)\<close> do.\<close>

definition aliasedHeap :: heap where
  "aliasedHeap = (\<lambda>a. [])
     (1 := [(''fullName'', HRef 2), (''name'', HRef 2)],
      2 := [(''get'', HFun (User 0)), (''set'', HFun (User 1))],
      3 := [(''setFirstName'', HFun (User 2))])"

definition oneParameter :: "nat \<Rightarrow> nat" where
  "oneParameter n = 1"

section \<open>Properties of the structural validator\<close>

lemma showNat_digit [simp]: "n < 10 \<Longrightarrow> showNat n = [digit n]"
  by (simp add: showNat.simps)

lemma deepTypeCheck_SFun:
  "deepTypeCheck d (SFun f) path =
     (if d = Undefined then throwAt (\<lambda>s. TypeError (undefinedDataMsg s)) (stringifyPath path)
      else typeCheck d (SFun f) path)"
  by (simp add: deepTypeCheck.simps)

lemma deepTypeCheck_SObj:
  "deepTypeCheck d (SObj kvs) path =
     (if d = Undefined then throwAt (\<lambda>s. TypeError (undefinedDataMsg s)) (stringifyPath path)
      else forEach (checkKey d path) kvs)"
  by (simp add: deepTypeCheck.simps[of d "SObj kvs"] checkKey_def)

lemma deepTypeCheck_SArr:
  "deepTypeCheck d (SArr ss) path =
     (if d = Undefined then throwAt (\<lambda>s. TypeError (undefinedDataMsg s)) (stringifyPath path)
      else case d of
        Arr xs \<Rightarrow>
          (case ss of
             [] \<Rightarrow> Inr ()
           | s0 # _ \<Rightarrow>
               if truthyS s0 \<and> typeofS s0 = ''object'' then
                 forEach (checkElement s0 path) (enumerate 0 xs)
               else if truthyS s0 \<and> typeofS s0 = ''function'' then
                 forEach (typeCheckElement s0 path) (enumerate 0 xs)
               else Inr ())
      | _ \<Rightarrow> throwAt (\<lambda>s. TypeErrorGot (expectedArrayMsg s) d) (stringifyPath path))"
  by (auto simp: deepTypeCheck.simps[of d "SArr ss"] checkElement_def typeCheckElement_def
      split: jsval.splits list.splits)

lemma forEach_ok: "(\<And>x. x \<in> set xs \<Longrightarrow> f x = Inr ()) \<Longrightarrow> forEach f xs = Inr ()"
  by (induction xs) auto

lemma forEach_append:
  "forEach f (xs @ ys) = (case forEach f xs of Inl e \<Rightarrow> Inl e | Inr _ \<Rightarrow> forEach f ys)"
  by (induction xs) (auto split: sum.splits)

lemma isObject_iff: "isObject d \<longleftrightarrow> (\<exists>kvs. d = Obj kvs)"
  by (cases d) (auto simp: isObject_def)

lemma isObjectS_iff: "isObjectS s \<longleftrightarrow> (\<exists>kvs. s = SObj kvs)"
  by (cases s rule: typeofS.cases) (auto simp: isObjectS_def)

lemma typeCheck_ok: "satisfies f v p \<Longrightarrow> typeCheck v (SFun f) (Some p) = Inr ()"
  by (auto simp: typeCheck_def satisfies_def split: sum.splits)

lemma matches_ok:
  "structurallyMatches d s p \<Longrightarrow> leavesDefined d s \<Longrightarrow> deepTypeCheck d s (Some p) = Inr ()"
proof (induction d s p rule: structurallyMatches.induct)
  case (1 d f p)
  then show ?case by (simp add: deepTypeCheck_SFun typeCheck_ok)
next
  case (2 d kvs p)
  have "forEach (checkKey d (Some p)) kvs = Inr ()"
  proof (rule forEach_ok)
    fix x assume x: "x \<in> set kvs"
    obtain key sub where ks: "x = (key, sub)" by (cases x)
    from "2.prems" x ks have m: "structurallyMatches (valueAt d key) sub (p @ [Key key])"
      and l: "leavesDefined (valueAt d key) sub"
      by (auto simp: list_all_iff)
    from "2.IH"[OF x ks[symmetric] m l]
    have ok: "deepTypeCheck (valueAt d key) sub (Some (p @ [Key key])) = Inr ()" .
    have obj: "isObjectS sub \<Longrightarrow> isObject (valueAt d key)"
      using m by (auto simp: isObjectS_iff)
    from "2.prems" have "isObject d" by simp
    then show "checkKey d (Some p) x = Inr ()"
      using ok obj by (auto simp: ks checkKey_def valueAt_def isObject_iff)
  qed
  then show ?case using "2.prems" by (auto simp: deepTypeCheck_SObj isObject_iff)
next
  case (3 d ss p)
  from "3.prems" obtain xs where d: "d = Arr xs" by (cases d) auto
  show ?case
  proof (cases ss)
    case Nil
    then show ?thesis using d by (simp add: deepTypeCheck_SArr)
  next
    case (Cons s0 rest)
    have el: "structurallyMatches v s0 (p @ [Idx idx])"
      if "(idx, v) \<in> set (enumerate 0 xs)" for idx v
      using "3.prems"(1) d Cons that by (auto simp: list_all_iff)
    have deep: "forEach (checkElement s0 (Some p)) (enumerate 0 xs) = Inr ()"
      if nf: "\<And>f. s0 \<noteq> SFun f"
    proof (rule forEach_ok)
      fix x assume x: "x \<in> set (enumerate 0 xs)"
      obtain idx v where iv: "x = (idx, v)" by (cases x)
      have "v \<in> set xs" using x iv by (auto simp: in_set_enumerate_eq)
      then have "leavesDefined v s0"
        using "3.prems"(2) d Cons nf by (cases s0) (auto simp: list_all_iff)
      with "3.IH"[OF d Cons x iv[symmetric]] el x iv
      show "checkElement s0 (Some p) x = Inr ()"
        by (simp add: iv checkElement_def)
    qed
    have flat: "forEach (typeCheckElement (SFun f) (Some p)) (enumerate 0 xs) = Inr ()"
      if "s0 = SFun f" for f
    proof (rule forEach_ok)
      fix x assume x: "x \<in> set (enumerate 0 xs)"
      obtain idx v where iv: "x = (idx, v)" by (cases x)
      from el x iv that have "satisfies f v (p @ [Idx idx])" by auto
      then show "typeCheckElement (SFun f) (Some p) x = Inr ()"
        by (simp add: iv typeCheckElement_def typeCheck_ok)
    qed
    show ?thesis
      using d Cons deep flat
      by (cases s0 rule: typeofS.cases) (auto simp: deepTypeCheck_SArr)
  qed
next
  case (4 d v p)
  then show ?case by simp
qed

lemma getProp_extra:
  "key \<noteq> k \<Longrightarrow> getProp (Obj (es @ [(k, x)])) key = getProp (Obj es) key"
  by (simp add: map_add_def split: option.splits)

lemma checkKey_extra:
  "key \<noteq> k \<Longrightarrow>
   checkKey (Obj (es @ [(k, x)])) path (key, sub) = checkKey (Obj es) path (key, sub)"
proof -
  assume "key \<noteq> k"
  then have "getProp (Obj (es @ [(k, x)])) key = getProp (Obj es) key"
    by (rule getProp_extra)
  then show ?thesis
    by (simp add: checkKey_def del: getProp.simps)
qed

lemma deepTypeCheck_extra_key:
  assumes k: "k \<notin> fst ` set kvs"
  shows "deepTypeCheck (Obj (es @ [(k, x)])) (SObj kvs) path
           = deepTypeCheck (Obj es) (SObj kvs) path"
proof -
  have "forEach (checkKey (Obj (es @ [(k, x)])) path) kvs = forEach (checkKey (Obj es) path) kvs"
  proof (rule forEach_cong[OF refl])
    fix e assume "e \<in> set kvs"
    then have "fst e \<noteq> k" using k by auto
    then show "checkKey (Obj (es @ [(k, x)])) path e = checkKey (Obj es) path e"
      by (cases e) (simp add: checkKey_extra)
  qed
  then show ?thesis by (simp add: deepTypeCheck_SObj)
qed

text \<open>
  C1, as stated: every data value that structurally matches the schema passes
  \<open>deepTypeCheck\<close> without a raise.  It fails where a predicate accepts \<open>undefined\<close>: the
  record \<open>{id: 1}\<close> matches the schema \<open>{id: number, nick: optionalString}\<close>, every leaf
  value satisfying its predicate, yet the validator raises on the absent \<open>nick\<close>, because
  it refuses \<open>undefined\<close> before it consults any predicate.
\<close>

theorem deepTypeCheck_undefined_leaf_counterexample:
  "structurallyMatches userData userSchema [Key ''<user>'']
   \<and> deepTypeCheck userData userSchema (Some [Key ''<user>''])
       = Inl (TypeError ''undefined data property at path: <user>.nick'')"
  by (simp add: userData_def userSchema_def optionalString_def types_number_def satisfies_def
      valueAt_def isObject_def deepTypeCheck_SObj deepTypeCheck_SFun checkKey_def isObjectS_def
      typeCheck_def throwAt_def undefinedDataMsg_def pathStep_def)

text \<open>
  C1, amended: for every schema and every data value that structurally matches it, and
  in which no value meeting a predicate leaf at the root or under an object key is
  \<open>undefined\<close>, \<open>deepTypeCheck(data, schema, path)\<close> returns without raising; and a data
  key that does not appear in the schema is never examined: adding one changes nothing
  in the outcome.
\<close>

theorem deepTypeCheck_accepts_matching:
  "(structurallyMatches d s p \<and> leavesDefined d s \<longrightarrow> deepTypeCheck d s (Some p) = Inr ())
   \<and> (k \<notin> fst ` set kvs \<longrightarrow>
        deepTypeCheck (Obj (es @ [(k, x)])) (SObj kvs) path
          = deepTypeCheck (Obj es) (SObj kvs) path)"
  using matches_ok deepTypeCheck_extra_key by blast

lemma bookData_matches:
  "structurallyMatches bookData bookSchema [Key ''<book>''] \<and> leavesDefined bookData bookSchema"
  by (simp add: bookData_def bookSchema_def types_string_def types_boolean_def types_number_def
      satisfies_def valueAt_def isObject_def enumerate_eq_zip upt_rec)

text \<open>The amended C1 at the book record of the README, which carries keys that the
  schema does not name, and at a record with one more key.\<close>

theorem deepTypeCheck_accepts_matching_witness:
  "structurallyMatches bookData bookSchema [Key ''<book>''] \<and> leavesDefined bookData bookSchema
   \<and> deepTypeCheck bookData bookSchema (Some [Key ''<book>'']) = Inr ()
   \<and> ''author'' \<notin> fst ` set [(''id'', SFun types_string)]
   \<and> deepTypeCheck (Obj ([(''id'', Str ''x'')] @ [(''author'', Null)]))
         (SObj [(''id'', SFun types_string)]) (Some [Key ''<book>''])
       = deepTypeCheck (Obj [(''id'', Str ''x'')])
           (SObj [(''id'', SFun types_string)]) (Some [Key ''<book>''])"
  using bookData_matches
    deepTypeCheck_accepts_matching[of bookData bookSchema "[Key ''<book>'']" "''author''"
      "[(''id'', SFun types_string)]" "[(''id'', Str ''x'')]" Null "Some [Key ''<book>'']"]
  by simp

text \<open>
  C2: every mismatch is stated to raise one error whose message contains the stringified
  path of the first mismatch.  Under an array whose element schema is object-shaped the
  validator recurses into each element without the object check that it makes under an
  object key.  A \<open>null\<close> element then ends in the runtime's own \<open>TypeError\<close> on the read of
  its first schema key, an error that carries no path; and a number meeting the empty
  object schema is accepted without any raise.
\<close>

theorem deepTypeCheck_array_element_not_object:
  "\<not> structurallyMatches (Obj [(''publishers'', Arr [Null])]) publishersSchema [Key ''<book>'']
   \<and> deepTypeCheck (Obj [(''publishers'', Arr [Null])]) publishersSchema (Some [Key ''<book>''])
       = Inl EngineTypeError
   \<and> \<not> structurallyMatches (Arr [Num 5]) (SArr [SObj []]) [Key ''<book>'']
   \<and> deepTypeCheck (Arr [Num 5]) (SArr [SObj []]) (Some [Key ''<book>'']) = Inr ()"
  by (simp add: publishersSchema_def valueAt_def isObject_def isObjectS_def deepTypeCheck_SObj
      deepTypeCheck_SArr checkKey_def checkElement_def enumerate_eq_zip)

text \<open>
  C3, as stated: whenever the sub-schema at key \<open>k\<close> is object-shaped and the data value
  at \<open>k\<close> is not, \<open>deepTypeCheck\<close> raises the expected-object error for the path extended by
  \<open>k\<close>.  It fails when an earlier key raises first: with \<open>id\<close> a string where a number is
  expected and \<open>address\<close> \<open>null\<close>, the error is the failed check of \<open>id\<close>.
\<close>

theorem deepTypeCheck_expected_object_counterexample:
  "isObjectS (SObj [(''city'', SFun types_string)])
   \<and> getProp (Obj [(''id'', Str ''7''), (''address'', Null)]) ''address'' = Inr Null
   \<and> \<not> isObject Null
   \<and> deepTypeCheck (Obj [(''id'', Str ''7''), (''address'', Null)]) profileSchema
         (Some [Key ''<user>''])
       = Inl (TypeErrorGot (checkFailedMsg ''<user>.id'') (Str ''7''))"
  by (simp add: profileSchema_def isObjectS_def isObject_def deepTypeCheck_SObj deepTypeCheck_SFun
      checkKey_def typeCheck_def types_number_def throwAt_def pathStep_def)

lemma stringifyPath_snoc:
  "stringifyPath (Some (p @ [el]))
     = Inr (case p of [] \<Rightarrow> segText el | x # xs \<Rightarrow> pathStep (foldl pathStep (segText x) xs) el)"
  by (cases p) auto

text \<open>
  C3, amended: for an object-shaped schema node with a key \<open>k\<close> whose sub-schema is
  object-shaped, when the keys enumerated before \<open>k\<close> pass and the data value at \<open>k\<close> is not
  object-shaped (\<open>null\<close>, \<open>undefined\<close>, an array or a primitive), \<open>deepTypeCheck\<close> raises the
  error "expected object for data property at path ..., Got: ..." for the path extended by
  \<open>k\<close>, with that value.  The outcome does not depend on the sub-schema beyond its shape nor
  on the later keys: nothing under \<open>k\<close> is visited, no predicate sees the value, and
  \<open>undefined\<close> gets this error and not the undefined-data-property one.
\<close>

theorem deepTypeCheck_expected_object:
  assumes sub: "isObjectS sub"
      and v: "getProp d k = Inr v"
      and nobj: "\<not> isObject v"
      and pre: "deepTypeCheck d (SObj pre) (Some p) = Inr ()"
  shows "\<exists>rendered. stringifyPath (Some (p @ [Key k])) = Inr rendered
           \<and> deepTypeCheck d (SObj (pre @ (k, sub) # post)) (Some p)
               = Inl (TypeErrorGot (expectedObjectMsg rendered) v)"
proof -
  from v have d: "d \<noteq> Undefined" by auto
  obtain rendered where rendered: "stringifyPath (Some (p @ [Key k])) = Inr rendered"
    by (auto simp: stringifyPath_snoc)
  from pre d have "forEach (checkKey d (Some p)) pre = Inr ()"
    by (simp add: deepTypeCheck_SObj)
  moreover have "checkKey d (Some p) (k, sub) = Inl (TypeErrorGot (expectedObjectMsg rendered) v)"
    using sub v nobj rendered by (simp add: checkKey_def throwAt_def)
  ultimately have "forEach (checkKey d (Some p)) (pre @ (k, sub) # post)
      = Inl (TypeErrorGot (expectedObjectMsg rendered) v)"
    by (simp add: forEach_append)
  with d rendered show ?thesis by (simp add: deepTypeCheck_SObj)
qed

text \<open>The amended C3 at a record without the key \<open>address\<close>: the value there is
  \<open>undefined\<close>, and the error is the expected-object one.\<close>

theorem deepTypeCheck_expected_object_witness:
  "isObjectS (SObj [(''city'', SFun types_string)])
   \<and> getProp (Obj [(''id'', Num 7)]) ''address'' = Inr Undefined
   \<and> \<not> isObject Undefined
   \<and> deepTypeCheck (Obj [(''id'', Num 7)]) (SObj [(''id'', SFun types_number)])
         (Some [Key ''<user>'']) = Inr ()
   \<and> deepTypeCheck (Obj [(''id'', Num 7)]) profileSchema (Some [Key ''<user>''])
       = Inl (TypeErrorGot (expectedObjectMsg ''<user>.address'') Undefined)"
proof -
  have 1: "isObjectS (SObj [(''city'', SFun types_string)])" by (simp add: isObjectS_def)
  have 2: "getProp (Obj [(''id'', Num 7)]) ''address'' = Inr Undefined" by simp
  have 3: "\<not> isObject Undefined" by (simp add: isObject_def)
  have 4: "deepTypeCheck (Obj [(''id'', Num 7)]) (SObj [(''id'', SFun types_number)])
             (Some [Key ''<user>'']) = Inr ()"
    by (simp add: deepTypeCheck_SObj deepTypeCheck_SFun checkKey_def typeCheck_def
        types_number_def isObjectS_def)
  from deepTypeCheck_expected_object[OF 1 2 3 4, of "[]"]
  have "deepTypeCheck (Obj [(''id'', Num 7)]) profileSchema (Some [Key ''<user>''])
       = Inl (TypeErrorGot (expectedObjectMsg ''<user>.address'') Undefined)"
    by (simp add: profileSchema_def pathStep_def)
  with 1 2 3 4 show ?thesis by blast
qed

section \<open>Properties of the watch-path deriver\<close>

lemma reduce_watch:
  "list_all (\<lambda>(key, val). noNullNode val) entries \<Longrightarrow>
   reduce (getReducerForPath path) entries acc = Inr (acc @ watchPaths path entries)"
proof (induction path entries arbitrary: acc rule: watchPaths.induct)
  case (1 prefix)
  then show ?case by simp
next
  case (2 prefix key val rest)
  show ?case
  proof (cases val rule: typeofS.cases)
    case (2 sub)
    then show ?thesis using "2.prems" "2.IH" by simp
  qed (use "2.prems" "2.IH" in auto)
qed

text \<open>
  C4: for every schema mapping whose nodes are functions, mappings and arrays,
  \<open>getWatchProperties\<close> returns the depth-first, key-ordered flattening in which a plain
  object-shaped sub-schema is recursed into and contributes no path of its own, while
  every other value, a predicate or an array of any shape, yields exactly one dot-joined
  path and is not descended into.
\<close>

theorem getWatchProperties_flattens:
  "noNullNode (SObj entries) \<Longrightarrow> getWatchProperties (SObj entries) = Inr (watchPaths [] entries)"
  by (simp add: getWatchProperties_def reduce_watch)

text \<open>C4 at the schema \<open>{a: {b: string}, c: [{d: string}], e: string}\<close>: the result is
  exactly \<open>['a.b', 'c', 'e']\<close>, in that order.\<close>

theorem getWatchProperties_flattens_witness:
  "noNullNode watchSchema \<and> getWatchProperties watchSchema = Inr [''a.b'', ''c'', ''e'']"
proof -
  have n: "noNullNode (SObj [(''a'', SObj [(''b'', SFun types_string)]),
     (''c'', SArr [SObj [(''d'', SFun types_string)]]), (''e'', SFun types_string)])"
    by simp
  from getWatchProperties_flattens[OF n] n show ?thesis
    by (simp add: watchSchema_def)
qed

section \<open>Properties of the type predicates\<close>

text \<open>
  C8: \<open>maybeNull(inner)\<close>.  For a nested schema, an object or an array node, the returned
  predicate answers \<open>null\<close> with \<open>true\<close> and any other value by running
  \<open>deepTypeCheck(v, inner, path)\<close>: \<open>true\<close> when that returns, and exactly its error when it
  raises; it never returns \<open>false\<close>.  For a predicate function the returned predicate is
  \<open>true\<close> iff the value is \<open>null\<close> or \<open>inner(v)\<close> is \<open>true\<close>, and off \<open>null\<close> it is \<open>inner(v)\<close>.
  So \<open>maybeNull(string)\<close> accepts \<open>null\<close> and every string, and rejects \<open>undefined\<close>, numbers
  and objects.
\<close>

theorem types_maybeNull_behaviour:
  "((inner = SObj kvs \<or> inner = SArr ss) \<longrightarrow>
      (\<exists>g. types_maybeNull inner = Inr g
         \<and> g Null path = Inr (Bool True)
         \<and> (v \<noteq> Null \<longrightarrow> g v path =
               (case deepTypeCheck v inner path of Inl e \<Rightarrow> Inl e | Inr _ \<Rightarrow> Inr (Bool True)))
         \<and> g v path \<noteq> Inr (Bool False)))
   \<and> (\<exists>g. types_maybeNull (SFun f) = Inr g
         \<and> (g v path = Inr (Bool True) \<longleftrightarrow> v = Null \<or> f v None = Inr (Bool True))
         \<and> (v \<noteq> Null \<longrightarrow> g v path = f v None))
   \<and> (\<exists>g. types_maybeNull (SFun types_string) = Inr g
         \<and> g Null path = Inr (Bool True)
         \<and> g (Str s) path = Inr (Bool True)
         \<and> g Undefined path = Inr (Bool False)
         \<and> g (Num n) path = Inr (Bool False)
         \<and> g (Obj es) path = Inr (Bool False))"
  by (auto simp: types_maybeNull_def types_string_def split: sum.splits)

text \<open>C8 at \<open>maybeNull({at: string})\<close> under \<open><book>.created\<close>: \<open>null\<close> is accepted, and the
  value \<open>{at: 1}\<close> raises the error of the nested validation, at \<open><book>.created.at\<close>.\<close>

theorem types_maybeNull_behaviour_witness:
  "\<exists>g. types_maybeNull (SObj [(''at'', SFun types_string)]) = Inr g
     \<and> g Null (Some [Key ''<book>'', Key ''created'']) = Inr (Bool True)
     \<and> Obj [(''at'', Num 1)] \<noteq> Null
     \<and> g (Obj [(''at'', Num 1)]) (Some [Key ''<book>'', Key ''created''])
         = Inl (TypeErrorGot (checkFailedMsg ''<book>.created.at'') (Num 1))"
proof -
  have c: "deepTypeCheck (Obj [(''at'', Num 1)]) (SObj [(''at'', SFun types_string)])
             (Some [Key ''<book>'', Key ''created''])
           = Inl (TypeErrorGot (checkFailedMsg ''<book>.created.at'') (Num 1))"
    by (simp add: deepTypeCheck_SObj deepTypeCheck_SFun checkKey_def typeCheck_def
        types_string_def isObjectS_def throwAt_def pathStep_def)
  from types_maybeNull_behaviour[of "SObj [(''at'', SFun types_string)]"
      "[(''at'', SFun types_string)]" "[]" "Some [Key ''<book>'', Key ''created'']"
      "Obj [(''at'', Num 1)]" types_string "[]" 0 "[]"] c
  show ?thesis by auto
qed

text \<open>
  C9: the predicate \<open>types.model(name)\<close> is stated to answer every value that is not a
  model instance of that name with a falsy result and without raising, \<open>null\<close> and
  \<open>undefined\<close> included.  On \<open>null\<close> and on \<open>undefined\<close> the read of \<open>v._isVue\<close> throws a
  \<open>TypeError\<close> instead.  (An instance of that name gets \<open>true\<close>, an instance of
  another name \<open>false\<close>, a number and a plain object the falsy \<open>undefined\<close>.)
\<close>

theorem types_model_null_undefined_raise:
  "types_model ''weather'' Null None = Inl EngineTypeError
   \<and> types_model ''weather'' Undefined None = Inl EngineTypeError
   \<and> types_model ''weather'' (vueInstance ''weather'') None = Inr (Bool True)
   \<and> types_model ''weather'' (vueInstance ''book'') None = Inr (Bool False)
   \<and> types_model ''weather'' (Num 5) None = Inr Undefined
   \<and> types_model ''weather'' (Obj [(''name'', Str ''weather'')]) None = Inr Undefined"
  by (simp add: types_model_def vueInstance_def)

section \<open>Properties of the mutation guard\<close>

text \<open>
  C6: the watch callback on the counter.  At 0 it raises the immutability violation and
  leaves the counter unchanged; below 0 it raises the invariant violation and leaves the
  counter unchanged; above 0 it decrements the counter by exactly 1 and does not raise.
\<close>

theorem watchCallback_cases:
  "(mutex this = 0 \<longrightarrow>
      watchCallback vmName this =
        (Inl (Error (vmName
           @ '' store is immutable! Updates must happen within a method or computed setter.'')),
         this))
   \<and> (mutex this < 0 \<longrightarrow>
      watchCallback vmName this =
        (Inl (Error (''Somehow the mutex is off in '' @ vmName @ ''. This should never happen.'')),
         this))
   \<and> (mutex this > 0 \<longrightarrow>
      watchCallback vmName this = (Inr Undefined, this\<lparr>mutex := mutex this - 1\<rparr>))"
  by (simp add: watchCallback_def)

text \<open>C6 at the counters 0, -1 and 2 of a store named \<open>user\<close>.\<close>

theorem watchCallback_cases_witness:
  "mutex \<lparr>mutex = 0, store = Null\<rparr> = 0
   \<and> watchCallback ''user'' \<lparr>mutex = 0, store = Null\<rparr>
       = (Inl (Error ''user store is immutable! Updates must happen within a method or computed setter.''),
          \<lparr>mutex = 0, store = Null\<rparr>)
   \<and> mutex \<lparr>mutex = - 1, store = Null\<rparr> < 0
   \<and> watchCallback ''user'' \<lparr>mutex = - 1, store = Null\<rparr>
       = (Inl (Error ''Somehow the mutex is off in user. This should never happen.''),
          \<lparr>mutex = - 1, store = Null\<rparr>)
   \<and> mutex \<lparr>mutex = 2, store = Null\<rparr> > 0
   \<and> watchCallback ''user'' \<lparr>mutex = 2, store = Null\<rparr> = (Inr Undefined, \<lparr>mutex = 1, store = Null\<rparr>)"
  using watchCallback_cases[of "\<lparr>mutex = 0, store = Null\<rparr>" "''user''"]
    watchCallback_cases[of "\<lparr>mutex = - 1, store = Null\<rparr>" "''user''"]
    watchCallback_cases[of "\<lparr>mutex = 2, store = Null\<rparr>" "''user''"]
  by simp

subsection \<open>The wrapping of the entry points\<close>

lemma wrapSetter_HRef: "wrapSetter (key, HRef a) h = (Inr (), h(a := wrapSet (h a)))"
  by (simp add: wrapSetter_def wrapSet_def Let_def)

lemma wrapSetter_HNull: "wrapSetter (key, HNull) h = (Inl EngineTypeError, h)"
  by (simp add: wrapSetter_def)

lemma wrapSetter_other: "typeofH val \<noteq> ''object'' \<Longrightarrow> wrapSetter (key, val) h = (Inr (), h)"
  by (simp add: wrapSetter_def)

lemma wrapSetter_ok: "val \<noteq> HNull \<Longrightarrow> fst (wrapSetter (key, val) h) = Inr ()"
  by (cases val) (simp_all add: wrapSetter_def Let_def)

lemma wrapSetter_loop:
  "HNull \<notin> snd ` set es \<Longrightarrow> distinct (entryRefs es) \<Longrightarrow>
   forEachH wrapSetter es h
     = (Inr (), (\<lambda>x. if x \<in> set (entryRefs es) then wrapSet (h x) else h x))"
proof (induction es arbitrary: h)
  case Nil
  then show ?case by simp
next
  case (Cons kv es)
  obtain k v where kv: "kv = (k, v)" by (cases kv)
  show ?case
  proof (cases v)
    case (HRef a)
    with Cons kv show ?thesis by (auto simp: wrapSetter_HRef fun_eq_iff)
  next
    case HNull
    with Cons.prems kv show ?thesis by simp
  qed (use Cons kv in \<open>simp_all add: wrapSetter_other\<close>)
qed

lemma wrapSetter_loop_status:
  "fst (forEachH wrapSetter es h) = Inr () \<longleftrightarrow> HNull \<notin> snd ` set es"
proof (induction es arbitrary: h)
  case Nil
  then show ?case by simp
next
  case (Cons kv es)
  obtain k v where kv: "kv = (k, v)" by (cases kv)
  show ?case
  proof (cases "v = HNull")
    case True
    then show ?thesis by (simp add: kv wrapSetter_HNull)
  next
    case False
    from wrapSetter_ok[OF False, of k h]
    obtain h1 where "wrapSetter (k, v) h = (Inr (), h1)"
      by (cases "wrapSetter (k, v) h") auto
    then show ?thesis using False Cons.IH[of h1] by (auto simp: kv)
  qed
qed

lemma update_in_place:
  "k \<notin> fst ` set done \<Longrightarrow>
   AList.update k w (done @ (k, v) # rest) = done @ (k, w) # rest"
  by (induction "done") auto

lemma wrapMethod_steps:
  "distinct (map fst (done @ rest)) \<Longrightarrow> h a = wrapAll done @ rest \<Longrightarrow>
   forEachH (wrapMethod (Some a)) rest h = (Inr (), h(a := wrapAll (done @ rest)))"
proof (induction rest arbitrary: h "done")
  case Nil
  then show ?case by (simp add: fun_eq_iff)
next
  case (Cons kv rest)
  obtain k v where kv: "kv = (k, v)" by (cases kv)
  have nk: "k \<notin> fst ` set (wrapAll done)"
    using Cons.prems(1) kv by (force simp: wrapAll_def)
  let ?h = "h(a := AList.update k (HFun (MethodWrapper v)) (h a))"
  have cell: "?h a = wrapAll (done @ [(k, v)]) @ rest"
    using Cons.prems(2) kv update_in_place[OF nk] by (simp add: wrapAll_def)
  have dist: "distinct (map fst ((done @ [(k, v)]) @ rest))"
    using Cons.prems(1) kv by simp
  have "forEachH (wrapMethod (Some a)) (kv # rest) h = forEachH (wrapMethod (Some a)) rest ?h"
    by (simp add: kv wrapMethod_def)
  also have "\<dots> = (Inr (), ?h(a := wrapAll ((done @ [(k, v)]) @ rest)))"
    by (rule Cons.IH[of "done @ [(k, v)]" ?h, OF dist cell])
  also have "?h(a := wrapAll ((done @ [(k, v)]) @ rest)) = h(a := wrapAll (done @ kv # rest))"
    by (simp add: kv)
  finally show ?case .
qed

lemma wrapMethod_loop:
  "distinct (map fst (h a)) \<Longrightarrow>
   forEachH (wrapMethod (Some a)) (h a) h = (Inr (), h(a := wrapAll (h a)))"
  using wrapMethod_steps[of "[]" "h a" h a] by (simp add: wrapAll_def)

lemma wrapMethod_status: "fst (forEachH (wrapMethod methods) es h) = Inr ()"
  by (induction es arbitrary: h) (auto simp: wrapMethod_def split: option.splits)

lemma installGuard_status:
  "fst (installGuard h vm) = Inr () \<longleftrightarrow> HNull \<notin> snd ` set (entriesH h (vm_computed vm))"
proof -
  obtain r h1 where l: "forEachH wrapSetter (entriesH h (vm_computed vm)) h = (r, h1)"
    by (cases "forEachH wrapSetter (entriesH h (vm_computed vm)) h")
  with wrapSetter_loop_status[of "entriesH h (vm_computed vm)" h]
  have "r = Inr () \<longleftrightarrow> HNull \<notin> snd ` set (entriesH h (vm_computed vm))" by simp
  then show ?thesis
    using l wrapMethod_status[of "vm_methods vm" "entriesH h1 (vm_methods vm)" h1]
    by (cases r) (auto simp: installGuard_def)
qed

lemma installGuard_separated:
  assumes sep: "separated h storeOptions"
      and nn: "HNull \<notin> snd ` set (entriesH h (so_computed storeOptions))"
  shows "installGuard h (sanitize storeOptions) = (Inr (), guardedHeap h storeOptions)"
proof -
  let ?es = "entriesH h (so_computed storeOptions)"
  let ?h1 = "\<lambda>x. if x \<in> set (entryRefs ?es) then wrapSet (h x) else h x"
  from sep have d: "distinct (entryRefs ?es)" by (simp add: separated_def Let_def)
  have l1: "forEachH wrapSetter ?es h = (Inr (), ?h1)"
    by (rule wrapSetter_loop[OF nn d])
  show ?thesis
  proof (cases "so_methods storeOptions")
    case None
    have "forEachH (wrapMethod None) [] ?h1 = (Inr (), ?h1)" by simp
    then show ?thesis
      using l1 None by (simp add: installGuard_def sanitize_def guardedHeap_def entriesH_def)
  next
    case (Some am)
    from sep Some have am: "am \<notin> set (entryRefs ?es)" and dk: "distinct (map fst (h am))"
      by (simp_all add: separated_def Let_def)
    then have "distinct (map fst (?h1 am))" by simp
    from wrapMethod_loop[of ?h1 am, OF this]
    have "forEachH (wrapMethod (Some am)) (?h1 am) ?h1 = (Inr (), ?h1(am := wrapAll (?h1 am)))" .
    then show ?thesis
      using l1 Some
      by (simp add: installGuard_def sanitize_def guardedHeap_def entriesH_def Let_def)
  qed
qed

lemma model_guard_on:
  assumes "model h storeOptions immutable production = (Inr c, h')"
      and "immutable \<noteq> Bool False" and "\<not> production"
  shows "installGuard h (sanitize storeOptions) = (Inr (), h')
         \<and> options c = sanitize storeOptions \<and> c_mutex c = Some 0"
  using assms
  by (auto simp: model_def Let_def split: if_splits sum.splits prod.splits option.splits)


lemma entryRefs_mem: "(key, HRef b) \<in> set es \<Longrightarrow> b \<in> set (entryRefs es)"
  by (induction es rule: entryRefs.induct) auto

lemma model_heap:
  assumes "model h storeOptions immutable production = (Inr c, h')"
      and "immutable \<noteq> Bool False" and "\<not> production"
      and "separated h storeOptions"
  shows "h' = guardedHeap h storeOptions"
proof -
  from model_guard_on[OF assms(1-3)]
  have i: "installGuard h (sanitize storeOptions) = (Inr (), h')" by simp
  then have "fst (installGuard h (sanitize storeOptions)) = Inr ()" by simp
  then have "HNull \<notin> snd ` set (entriesH h (so_computed storeOptions))"
    by (simp add: installGuard_status sanitize_def)
  from installGuard_separated[OF assms(4) this] i show ?thesis by simp
qed

lemma guardedHeap_methods:
  "separated h storeOptions \<Longrightarrow> so_methods storeOptions = Some am \<Longrightarrow>
   guardedHeap h storeOptions am = wrapAll (h am)"
  by (simp add: guardedHeap_def separated_def Let_def)

lemma guardedHeap_computed:
  "separated h storeOptions \<Longrightarrow> so_computed storeOptions = Some ac \<Longrightarrow>
   guardedHeap h storeOptions ac = h ac"
  by (auto simp: guardedHeap_def separated_def Let_def split: option.splits)

lemma guardedHeap_entry:
  "separated h storeOptions \<Longrightarrow> so_computed storeOptions = Some ac \<Longrightarrow>
   (key, HRef b) \<in> set (h ac) \<Longrightarrow> guardedHeap h storeOptions b = wrapSet (h b)"
  by (auto simp: guardedHeap_def separated_def Let_def entriesH_def dest: entryRefs_mem
      split: option.splits)




lemma propH_wrapAll:
  "distinct (map fst obj) \<Longrightarrow> (k, v) \<in> set obj \<Longrightarrow>
   propH (wrapAll obj) k = HFun (MethodWrapper v)"
proof -
  assume "distinct (map fst obj)" "(k, v) \<in> set obj"
  then have "map_of obj k = Some v" by simp
  then show ?thesis by (simp add: propH_def wrapAll_def map_of_map)
qed

lemma propH_wrapSet:
  "propH (wrapSet obj) p =
     (if p = ''set'' \<and> truthyH (propH obj ''set'') then HFun (SetterWrapper (propH obj ''set''))
      else propH obj p)"
  by (simp add: wrapSet_def propH_def update_conv')

lemma programmer_separated: "separated programmerHeap programmerOptions"
  by (simp add: separated_def programmerHeap_def programmerOptions_def entriesH_def)

lemma programmer_model:
  "\<exists>c. model programmerHeap programmerOptions Undefined False
         = (Inr c, guardedHeap programmerHeap programmerOptions)"
proof -
  have nn: "HNull \<notin> snd ` set (entriesH programmerHeap (so_computed programmerOptions))"
    by (simp add: programmerHeap_def programmerOptions_def entriesH_def)
  have w: "getWatchProperties (SObj [(''firstName'', SFun types_string), (''lastName'', SFun types_string)])
             = Inr [''firstName'', ''lastName'']"
    by (simp add: getWatchProperties_def)
  have t: "deepTypeCheck (Obj [(''firstName'', Str ''Brian''), (''lastName'', Str ''Kernighan'')])
             (SObj [(''firstName'', SFun types_string), (''lastName'', SFun types_string)])
             (Some [Key ''<programmer>'']) = Inr ()"
    by (simp add: deepTypeCheck_SObj deepTypeCheck_SFun checkKey_def typeCheck_def
        types_string_def isObjectS_def)
  have s: "vm_data (sanitize programmerOptions) = so_data programmerOptions"
     "vm_name (sanitize programmerOptions) = ''programmer''"
    by (simp_all add: sanitize_def programmerOptions_def)
  show ?thesis
    unfolding model_def Let_def installGuard_separated[OF programmer_separated nn] s
    by (simp add: programmerOptions_def activeSchema_def w t)
qed

subsection \<open>The counter over time\<close>

lemma step_guarded:
  "guardedEvent env ev \<Longrightarrow>
   mutex (step env vmName this ev) =
     (case ev of
        GuardedCall f args \<Rightarrow> mutex this + 1
      | ChangeNotification \<Rightarrow> if mutex this > 0 then mutex this - 1 else mutex this)"
  by (cases "(env, ev)" rule: guardedEvent.cases)
     (auto simp: preservesMutex_def watchCallback_def)

lemma run_mutex:
  "list_all (guardedEvent env) evs \<Longrightarrow> 0 \<le> mutex this \<Longrightarrow>
   0 \<le> mutex (run env vmName this evs)
   \<and> mutex (run env vmName this evs)
       = mutex this + int (calls evs) - int (notifications evs)
         + int (raised env vmName this evs)"
proof (induction evs arbitrary: this)
  case Nil
  then show ?case by (simp add: run_def calls_def notifications_def)
next
  case (Cons ev evs)
  from Cons.prems have g: "guardedEvent env ev" and gs: "list_all (guardedEvent env) evs"
    by auto
  have s: "0 \<le> mutex (step env vmName this ev)"
    using step_guarded[OF g, of vmName this] Cons.prems(2) by (cases ev) auto
  from Cons.IH[OF gs s] have
    ih: "0 \<le> mutex (run env vmName (step env vmName this ev) evs)"
        "mutex (run env vmName (step env vmName this ev) evs)
          = mutex (step env vmName this ev) + int (calls evs) - int (notifications evs)
            + int (raised env vmName (step env vmName this ev) evs)"
    by auto
  show ?case
  proof (cases ev)
    case (GuardedCall f args)
    then show ?thesis
      using ih step_guarded[OF g, of vmName this]
      by (simp add: run_def calls_def notifications_def)
  next
    case ChangeNotification
    then show ?thesis
      using ih step_guarded[OF g, of vmName this] Cons.prems(2)
      by (auto simp: run_def calls_def notifications_def watchCallback_def)
  qed
qed

text \<open>
  C5: construction with the guard sets the counter to 0; from a counter at 0, under any
  interleaving of calls of guarded entry points (each adds exactly 1 on entry) and change
  notifications (each takes 1 off a positive counter, and raises without decrementing
  otherwise), the counter is never negative at any moment; and after a history in which
  the notifications that did not raise are exactly as many as the guarded calls, the
  counter is back at 0.
\<close>

theorem mutex_never_negative:
  "(model h storeOptions immutable production = (Inr c, h')
      \<and> immutable \<noteq> Bool False \<and> \<not> production \<longrightarrow> c_mutex c = Some 0)
   \<and> (list_all (guardedEvent env) evs \<and> mutex this = 0 \<longrightarrow>
        (\<forall>n. 0 \<le> mutex (run env vmName this (take n evs)))
        \<and> (calls evs + raised env vmName this evs = notifications evs
             \<longrightarrow> mutex (run env vmName this evs) = 0))"
proof -
  have "0 \<le> mutex (run env vmName this (take n evs))"
    if "list_all (guardedEvent env) evs" "mutex this = 0" for n
  proof -
    have "list_all (guardedEvent env) (take n evs)"
      using that(1) by (auto simp: list_all_iff dest: in_set_takeD)
    from run_mutex[OF this, of this vmName] that(2) show ?thesis by simp
  qed
  moreover have "mutex (run env vmName this evs) = 0"
    if "list_all (guardedEvent env) evs" "mutex this = 0"
       "calls evs + raised env vmName this evs = notifications evs"
    using run_mutex[OF that(1), of this vmName] that(2,3) by auto
  moreover have "c_mutex c = Some 0"
    if "model h storeOptions immutable production = (Inr c, h')"
       "immutable \<noteq> Bool False" "\<not> production"
    using model_guard_on[OF that] by simp
  ultimately show ?thesis by blast
qed

text \<open>C5 at the construction of the \<open>programmer\<close> model, and at two overlapping calls of
  a wrapped method followed by their two notifications: the counter goes 1, 2, 1, 0.\<close>

theorem mutex_never_negative_witness:
  "(\<exists>c h'. model programmerHeap programmerOptions Undefined False = (Inr c, h')
      \<and> Undefined \<noteq> Bool False \<and> \<not> False \<and> c_mutex c = Some 0)
   \<and> list_all (guardedEvent setFirstName) overlapping
   \<and> mutex \<lparr>mutex = 0, store = Obj []\<rparr> = 0
   \<and> calls overlapping + raised setFirstName ''programmer'' \<lparr>mutex = 0, store = Obj []\<rparr> overlapping
       = notifications overlapping
   \<and> 0 \<le> mutex (run setFirstName ''programmer'' \<lparr>mutex = 0, store = Obj []\<rparr> (take 3 overlapping))
   \<and> mutex (run setFirstName ''programmer'' \<lparr>mutex = 0, store = Obj []\<rparr> overlapping) = 0"
proof -
  from programmer_model obtain c where
    pm: "model programmerHeap programmerOptions Undefined False
          = (Inr c, guardedHeap programmerHeap programmerOptions)" ..
  have i: "Undefined \<noteq> Bool False" by simp
  have g: "list_all (guardedEvent setFirstName) overlapping"
    by (simp add: overlapping_def preservesMutex_def setFirstName_def)
  have m: "mutex \<lparr>mutex = 0, store = Obj []\<rparr> = 0" by simp
  have r: "raised setFirstName ''programmer'' \<lparr>mutex = 0, store = Obj []\<rparr> overlapping = 0"
    by (simp add: overlapping_def setFirstName_def watchCallback_def)
  have k: "calls overlapping = notifications overlapping"
    by (simp add: overlapping_def calls_def notifications_def)
  from r k have e: "calls overlapping
      + raised setFirstName ''programmer'' \<lparr>mutex = 0, store = Obj []\<rparr> overlapping
      = notifications overlapping" by simp
  note T = mutex_never_negative[of programmerHeap programmerOptions Undefined False c
      "guardedHeap programmerHeap programmerOptions" setFirstName overlapping
      "\<lparr>mutex = 0, store = Obj []\<rparr>" "''programmer''"]
  from T pm i have 1: "c_mutex c = Some 0" by blast
  from T g m e have 2:
    "0 \<le> mutex (run setFirstName ''programmer'' \<lparr>mutex = 0, store = Obj []\<rparr> (take 3 overlapping))
     \<and> mutex (run setFirstName ''programmer'' \<lparr>mutex = 0, store = Obj []\<rparr> overlapping) = 0"
    by blast
  from pm i 1 g m e 2 show ?thesis by blast
qed

subsection \<open>The wrappers in the caller's objects\<close>

lemma aliased_installGuard:
  "installGuard aliasedHeap (sanitize programmerOptions)
     = (Inr (), aliasedHeap
          (2 := [(''get'', HFun (User 0)),
                 (''set'', HFun (SetterWrapper (HFun (SetterWrapper (HFun (User 1))))))],
           3 := [(''setFirstName'', HFun (MethodWrapper (HFun (User 2))))]))"
  by (simp add: installGuard_def sanitize_def programmerOptions_def entriesH_def aliasedHeap_def
      wrapSetter_def wrapMethod_def propH_def Let_def)

text \<open>
  C7, as stated: the \<open>set\<close> member of every object entry of \<open>computed\<close> is replaced by
  a wrapper that adds 1 to the counter and then calls the original function, and the
  wrapper preserves the arity of what it wraps.  It fails in two ways.  When one
  \<open>{get, set}\<close> object stands under two keys of \<open>computed\<close>, the loop wraps its \<open>set\<close>
  twice: the member ends as the wrapper around the wrapper, not around the original, and
  one call adds 2.  And a wrapper declares a rest parameter alone, so its length is 0
  where the method it wraps declares one parameter.
\<close>

theorem model_wraps_entry_points_counterexample:
  "\<not> isl (fst (model aliasedHeap programmerOptions Undefined False))
   \<and> so_computed programmerOptions = Some 1
   \<and> (''name'', HRef 2) \<in> set (aliasedHeap 1)
   \<and> propH (aliasedHeap 2) ''set'' = HFun (User 1)
   \<and> propH (snd (model aliasedHeap programmerOptions Undefined False) 2) ''set''
       = HFun (SetterWrapper (HFun (SetterWrapper (HFun (User 1)))))
   \<and> mutex (snd (invoke setFirstName (SetterWrapper (HFun (SetterWrapper (HFun (User 1)))))
         \<lparr>mutex = 0, store = Obj []\<rparr> [Str ''Joe Armstrong''])) = 2
   \<and> funLength oneParameter (User 2) = 1
   \<and> funLength oneParameter (MethodWrapper (HFun (User 2))) = 0"
proof -
  have w: "getWatchProperties (SObj [(''firstName'', SFun types_string), (''lastName'', SFun types_string)])
             = Inr [''firstName'', ''lastName'']"
    by (simp add: getWatchProperties_def)
  have t: "deepTypeCheck (Obj [(''firstName'', Str ''Brian''), (''lastName'', Str ''Kernighan'')])
             (SObj [(''firstName'', SFun types_string), (''lastName'', SFun types_string)])
             (Some [Key ''<programmer>'']) = Inr ()"
    by (simp add: deepTypeCheck_SObj deepTypeCheck_SFun checkKey_def typeCheck_def
        types_string_def isObjectS_def)
  have s: "vm_data (sanitize programmerOptions) = so_data programmerOptions"
     "vm_name (sanitize programmerOptions) = ''programmer''"
    by (simp_all add: sanitize_def programmerOptions_def)
  have m: "\<exists>c. model aliasedHeap programmerOptions Undefined False
     = (Inr c, aliasedHeap
          (2 := [(''get'', HFun (User 0)),
                 (''set'', HFun (SetterWrapper (HFun (SetterWrapper (HFun (User 1))))))],
           3 := [(''setFirstName'', HFun (MethodWrapper (HFun (User 2))))]))"
    unfolding model_def Let_def aliased_installGuard s
    by (simp add: programmerOptions_def activeSchema_def w t)
  then obtain c where mc: "model aliasedHeap programmerOptions Undefined False
     = (Inr c, aliasedHeap
          (2 := [(''get'', HFun (User 0)),
                 (''set'', HFun (SetterWrapper (HFun (SetterWrapper (HFun (User 1))))))],
           3 := [(''setFirstName'', HFun (MethodWrapper (HFun (User 2))))]))" ..
  have 1: "\<not> isl (fst (model aliasedHeap programmerOptions Undefined False))"
    by (simp add: mc)
  have 2: "propH (snd (model aliasedHeap programmerOptions Undefined False) 2) ''set''
       = HFun (SetterWrapper (HFun (SetterWrapper (HFun (User 1)))))"
    by (simp add: mc propH_def)
  have 3: "so_computed programmerOptions = Some 1"
     "(''name'', HRef 2) \<in> set (aliasedHeap 1)"
     "propH (aliasedHeap 2) ''set'' = HFun (User 1)"
    by (simp_all add: propH_def aliasedHeap_def programmerOptions_def)
  have 4: "mutex (snd (invoke setFirstName (SetterWrapper (HFun (SetterWrapper (HFun (User 1)))))
         \<lparr>mutex = 0, store = Obj []\<rparr> [Str ''Joe Armstrong''])) = 2"
    by (simp add: setFirstName_def)
  have 5: "funLength oneParameter (User 2) = 1"
     "funLength oneParameter (MethodWrapper (HFun (User 2))) = 0"
    by (simp_all add: oneParameter_def)
  from 1 2 3 4 5 show ?thesis by blast
qed

text \<open>
  C7, amended: when the mutation guard is installed on option objects that do not alias
  one another, every method of the methods mapping and the \<open>set\<close> member of every computed
  entry that is an object with a (truthy) \<open>set\<close> member is replaced by a wrapper; the
  wrapper adds 1 to the counter of its receiver, then calls the original function with the
  same arguments, however many, on the same receiver, and its outcome, return value or
  error, is the original's; the wrapper's own declared length is 0.  The other members of
  such an entry, the entries without a \<open>set\<close> member and the entries that are plain getter
  functions stay as they were.
\<close>

theorem model_wraps_entry_points:
  assumes "model h storeOptions immutable production = (Inr c, h')"
      and "immutable \<noteq> Bool False" and "\<not> production"
      and "separated h storeOptions"
  shows "(\<forall>am k v. so_methods storeOptions = Some am \<and> (k, v) \<in> set (h am)
            \<longrightarrow> propH (h' am) k = HFun (MethodWrapper v))
       \<and> (\<forall>ac key b. so_computed storeOptions = Some ac \<and> (key, HRef b) \<in> set (h ac)
              \<and> truthyH (propH (h b) ''set'')
            \<longrightarrow> propH (h' b) ''set'' = HFun (SetterWrapper (propH (h b) ''set''))
                \<and> (\<forall>p. p \<noteq> ''set'' \<longrightarrow> propH (h' b) p = propH (h b) p))
       \<and> (\<forall>ac key b. so_computed storeOptions = Some ac \<and> (key, HRef b) \<in> set (h ac)
              \<and> \<not> truthyH (propH (h b) ''set'')
            \<longrightarrow> h' b = h b)
       \<and> (\<forall>ac. so_computed storeOptions = Some ac \<longrightarrow> h' ac = h ac)
       \<and> (\<forall>env f this args.
            invoke env (MethodWrapper (HFun f)) this args
              = invoke env f (this\<lparr>mutex := mutex this + 1\<rparr>) args
          \<and> invoke env (SetterWrapper (HFun f)) this args
              = invoke env f (this\<lparr>mutex := mutex this + 1\<rparr>) args)
       \<and> (\<forall>declared v. funLength declared (MethodWrapper v) = 0
            \<and> funLength declared (SetterWrapper v) = 0)"
proof -
  have h': "h' = guardedHeap h storeOptions"
    by (rule model_heap[OF assms])
  note sep = assms(4)
  have 1: "propH (h' am) k = HFun (MethodWrapper v)"
    if "so_methods storeOptions = Some am" "(k, v) \<in> set (h am)" for am k v
  proof -
    from sep that(1) have "distinct (map fst (h am))" by (simp add: separated_def Let_def)
    from propH_wrapAll[OF this that(2)] show ?thesis
      by (simp add: h' guardedHeap_methods[OF sep that(1)])
  qed
  have cell: "h' b = wrapSet (h b)"
    if "so_computed storeOptions = Some ac" "(key, HRef b) \<in> set (h ac)" for ac key b
    using that by (simp add: h' guardedHeap_entry[OF sep])
  have 2: "propH (h' b) ''set'' = HFun (SetterWrapper (propH (h b) ''set''))
             \<and> (\<forall>p. p \<noteq> ''set'' \<longrightarrow> propH (h' b) p = propH (h b) p)"
    if "so_computed storeOptions = Some ac" "(key, HRef b) \<in> set (h ac)"
       "truthyH (propH (h b) ''set'')" for ac key b
    using that by (simp add: cell[OF that(1,2)] propH_wrapSet)
  have 3: "h' b = h b"
    if "so_computed storeOptions = Some ac" "(key, HRef b) \<in> set (h ac)"
       "\<not> truthyH (propH (h b) ''set'')" for ac key b
    using that by (simp add: cell[OF that(1,2)] wrapSet_def)
  have 4: "h' ac = h ac" if "so_computed storeOptions = Some ac" for ac
    using that by (simp add: h' guardedHeap_computed[OF sep])
  have 5: "invoke env (MethodWrapper (HFun f)) this args
              = invoke env f (this\<lparr>mutex := mutex this + 1\<rparr>) args
          \<and> invoke env (SetterWrapper (HFun f)) this args
              = invoke env f (this\<lparr>mutex := mutex this + 1\<rparr>) args" for env f this args
    by simp
  have 6: "funLength declared (MethodWrapper v) = 0 \<and> funLength declared (SetterWrapper v) = 0"
    for declared v
    by simp
  show ?thesis
    using 1 2 3 4 5 6 by blast
qed

text \<open>The amended C7 at the \<open>programmer\<close> options: the method and the setter of \<open>fullName\<close> are
  wrapped, its getter, the \<open>{get}\<close> entry and the plain getter are not, and a call of the
  wrapped method counts and then runs the method.\<close>

theorem model_wraps_entry_points_witness:
  "\<exists>c h'. model programmerHeap programmerOptions Undefined False = (Inr c, h')
     \<and> Undefined \<noteq> Bool False \<and> \<not> False
     \<and> separated programmerHeap programmerOptions
     \<and> so_methods programmerOptions = Some 3
     \<and> (''setFirstName'', HFun (User 2)) \<in> set (programmerHeap 3)
     \<and> propH (h' 3) ''setFirstName'' = HFun (MethodWrapper (HFun (User 2)))
     \<and> so_computed programmerOptions = Some 1
     \<and> (''fullName'', HRef 2) \<in> set (programmerHeap 1)
     \<and> truthyH (propH (programmerHeap 2) ''set'')
     \<and> propH (h' 2) ''set'' = HFun (SetterWrapper (HFun (User 1)))
     \<and> propH (h' 2) ''get'' = HFun (User 0)
     \<and> (''language'', HRef 4) \<in> set (programmerHeap 1)
     \<and> \<not> truthyH (propH (programmerHeap 4) ''set'')
     \<and> h' 4 = [(''get'', HFun (User 4))]
     \<and> propH (h' 1) ''initials'' = HFun (User 3)
     \<and> invoke setFirstName (MethodWrapper (HFun (User 2))) \<lparr>mutex = 0, store = Obj []\<rparr> [Str ''Joe'']
         = (Inr Undefined, \<lparr>mutex = 1, store = Obj [(''firstName'', Str ''Joe'')]\<rparr>)
     \<and> funLength oneParameter (MethodWrapper (HFun (User 2))) = 0"
proof -
  from programmer_model obtain c where
    m: "model programmerHeap programmerOptions Undefined False
          = (Inr c, guardedHeap programmerHeap programmerOptions)" ..
  have i: "Undefined \<noteq> Bool False" by simp
  have p: "\<not> False" by simp
  have a: "so_methods programmerOptions = Some 3" "so_computed programmerOptions = Some 1"
    by (simp_all add: programmerOptions_def)
  have b: "(''setFirstName'', HFun (User 2)) \<in> set (programmerHeap 3)"
     "(''fullName'', HRef 2) \<in> set (programmerHeap 1)"
     "(''language'', HRef 4) \<in> set (programmerHeap 1)"
     "truthyH (propH (programmerHeap 2) ''set'')"
     "\<not> truthyH (propH (programmerHeap 4) ''set'')"
     "propH (programmerHeap 2) ''set'' = HFun (User 1)"
     "propH (programmerHeap 2) ''get'' = HFun (User 0)"
     "programmerHeap 4 = [(''get'', HFun (User 4))]"
     "propH (programmerHeap 1) ''initials'' = HFun (User 3)"
    by (simp_all add: programmerHeap_def propH_def)
  note T = model_wraps_entry_points[OF m i p programmer_separated]
  let ?h' = "guardedHeap programmerHeap programmerOptions"
  from T[THEN conjunct1, rule_format, of 3 "''setFirstName''" "HFun (User 2)"] a b
  have 1: "propH (?h' 3) ''setFirstName'' = HFun (MethodWrapper (HFun (User 2)))" by simp
  from T[THEN conjunct2, THEN conjunct1, rule_format, of 1 "''fullName''" 2] a b
  have 2: "propH (?h' 2) ''set'' = HFun (SetterWrapper (HFun (User 1)))
           \<and> propH (?h' 2) ''get'' = HFun (User 0)" by simp
  from T[THEN conjunct2, THEN conjunct2, THEN conjunct1, rule_format, of 1 "''language''" 4] a b
  have 3: "?h' 4 = [(''get'', HFun (User 4))]" by simp
  from T[THEN conjunct2, THEN conjunct2, THEN conjunct2, THEN conjunct1, rule_format, of 1] a b
  have 4: "propH (?h' 1) ''initials'' = HFun (User 3)" by simp
  from T[THEN conjunct2, THEN conjunct2, THEN conjunct2, THEN conjunct2, THEN conjunct1,
      rule_format, of setFirstName "User 2" "\<lparr>mutex = 0, store = Obj []\<rparr>" "[Str ''Joe'']"]
  have 5: "invoke setFirstName (MethodWrapper (HFun (User 2))) \<lparr>mutex = 0, store = Obj []\<rparr>
             [Str ''Joe'']
           = (Inr Undefined, \<lparr>mutex = 1, store = Obj [(''firstName'', Str ''Joe'')]\<rparr>)"
    by (simp add: setFirstName_def)
  from T[THEN conjunct2, THEN conjunct2, THEN conjunct2, THEN conjunct2, THEN conjunct2,
      rule_format, of oneParameter "HFun (User 2)"]
  have 6: "funLength oneParameter (MethodWrapper (HFun (User 2))) = 0" by simp
  from m i p programmer_separated a b 1 2 3 4 5 6 show ?thesis by blast
qed



end
